(* ===== verification/Prelude.thy ===== *)
theory Prelude
  imports Complex_Main
begin

text \<open>
  Shared vocabulary of the development: the Python exceptions that can escape a Tk
  callback of the application, the visible end of a callback, the types that name the
  program's data (face encodings, face boxes, file paths, the result label), Python's
  list indexing, and the generic lemmas on lists that the
  component theories share.
\<close>

named_theorems handler_simps "unfolding equations of the application's Tk handlers"

section \<open>Python values and exceptions\<close>

text \<open>
  The exceptions the three programs can raise inside a callback: \<open>TypeError\<close> (numpy
  arithmetic on a \<open>None\<close> reference encoding), \<open>ValueError\<close> (encodings of different
  lengths), \<open>IndexError\<close> (\<open>xs[0]\<close> on an empty list) and \<open>FileNotFoundError\<close>
  (\<open>load_image_file\<close> on a missing or unreadable file).
\<close>

datatype exn = TypeError | ValueError | IndexError | FileNotFoundError

text \<open>
  How a Tk button callback ends: it returns, it shows an error dialog and returns, it is
  still inside a blocking loop (the capture dialog waiting for the key), or it raised an
  exception that Tk prints and drops, keeping every assignment made before the raise.
\<close>

datatype outcome = Returned | Shown_Error string | Blocked | Raised exn

type_synonym encoding = "real list"
type_synonym loc = "int \<times> int \<times> int \<times> int"
type_synonym box = "(int \<times> int \<times> int \<times> int) \<times> real"
type_synonym path = string
type_synonym label = "string \<times> string"

text \<open>Python's \<open>xs[0]\<close>: \<open>IndexError\<close> on the empty list.\<close>

definition py_first :: "'a list \<Rightarrow> exn + 'a" where
  "py_first xs = (case xs of [] \<Rightarrow> Inl IndexError | x # _ \<Rightarrow> Inr x)"

section \<open>Shared lemmas\<close>

lemma py_first_Cons [simp]: "py_first (x # xs) = Inr x"
  by (simp add: py_first_def)

lemma py_first_Nil [simp]: "py_first [] = Inl IndexError"
  by (simp add: py_first_def)

text \<open>
  A loop that overwrites one variable on every iteration leaves the value of the last
  iteration, or the old value when it runs zero times (the YOLO result loop).
\<close>

lemma fold_overwrite [simp]:
  "fold (\<lambda>x _. f x) xs c = (if xs = [] then c else f (last xs))"
  by (induction xs arbitrary: c) auto

end
