(* ===== verification/Vision.thy ===== *)
theory Vision
  imports Prelude
begin

text \<open>
  The image-processing and model collaborators the programs call, as one record of
  functions over an abstract frame type \<open>'f\<close>: OpenCV's colour conversions, histogram
  equalisation, bilateral filter, resize and JPEG codec, dlib's face locator and encoder
  (through \<open>face_recognition\<close>) and the YOLOv8 person detector. The programs only call
  them, so they are parameters of the model and every theorem holds for all of them.
  On top of them: \<open>preprocess_image\<close> and \<open>encode_face\<close>, the program's own
  functions (\<^verbatim>\<open>src/FinalProject.py\<close> lines 31--41, identical in
  \<^verbatim>\<open>src/FaceMatching.py\<close> lines 28--38).
\<close>

section \<open>Collaborators\<close>

record 'f vision =
  cvt_rgb2gray :: "'f \<Rightarrow> 'f"
  equalize_hist :: "'f \<Rightarrow> 'f"
  bilateral_filter :: "nat \<Rightarrow> nat \<Rightarrow> nat \<Rightarrow> 'f \<Rightarrow> 'f"
  cvt_gray2rgb :: "'f \<Rightarrow> 'f"
  cvt_bgr2rgb :: "'f \<Rightarrow> 'f"
  resize_half :: "'f \<Rightarrow> 'f"
  jpeg_codec :: "'f \<Rightarrow> 'f"
  face_locations :: "'f \<Rightarrow> loc list"
  face_encodings :: "'f \<Rightarrow> loc list \<Rightarrow> encoding list"
  yolo_predict :: "'f \<Rightarrow> real \<Rightarrow> nat list \<Rightarrow> box list list"

text \<open>
  \<open>bilateral_filter v d sigma_color sigma_space\<close> is \<open>cv2.bilateralFilter\<close>;
  \<open>jpeg_codec\<close> is what a \<open>cv2.imwrite\<close> to a \<open>.jpg\<close> file and a later read give
  back (the codec is lossy); \<open>yolo_predict v frame conf classes\<close> returns one result per
  input image, each the list of detected boxes with their confidence. Files hold images in
  OpenCV's BGR channel order; \<open>face_recognition.load_image_file\<close> returns RGB, i.e.
  \<open>cvt_bgr2rgb\<close> of the stored image.
\<close>

section \<open>Preprocessing and encoding\<close>

definition preprocess_image :: "'f vision \<Rightarrow> 'f \<Rightarrow> 'f" where
  "preprocess_image v img =
     (let gray = cvt_rgb2gray v img;
          gray = equalize_hist v gray;
          filtered = bilateral_filter v 9 75 75 gray
      in cvt_gray2rgb v filtered)"

text \<open>
  \<open>face_recognition.face_encodings(img)\<close> without locations locates the faces itself with
  the same default detector as \<open>face_locations(img)\<close>; the model writes that call out.
\<close>

definition encode_face :: "'f vision \<Rightarrow> 'f \<Rightarrow> encoding option" where
  "encode_face v img =
     (let processed = preprocess_image v img;
          encodings = face_encodings v processed (face_locations v processed)
      in case encodings of [] \<Rightarrow> None | e # _ \<Rightarrow> Some e)"

text \<open>
  A small instance for concrete runs: frames are numbers, every image operation is the
  identity, \<open>enc frame\<close> lists the encodings of the faces in a frame (one location per
  face) and YOLO returns one result with \<open>persons frame\<close> boxes.
\<close>

definition test_vision :: "(nat \<Rightarrow> encoding list) \<Rightarrow> (nat \<Rightarrow> nat) \<Rightarrow> nat vision" where
  "test_vision enc persons =
     \<lparr>cvt_rgb2gray = id, equalize_hist = id, bilateral_filter = (\<lambda>_ _ _. id),
      cvt_gray2rgb = id, cvt_bgr2rgb = id, resize_half = id, jpeg_codec = id,
      face_locations = (\<lambda>f. map (\<lambda>_. (0, 0, 0, 0)) (enc f)),
      face_encodings = (\<lambda>f locs. take (length locs) (enc f)),
      yolo_predict = (\<lambda>f _ _. [replicate (persons f) ((0, 0, 0, 0), 1)])\<rparr>"

section \<open>Lemmas\<close>

lemma preprocess_image_pipeline:
  "preprocess_image v img =
     cvt_gray2rgb v (bilateral_filter v 9 75 75 (equalize_hist v (cvt_rgb2gray v img)))"
  by (simp add: preprocess_image_def)

lemma encode_face_None_iff:
  "encode_face v img = None \<longleftrightarrow>
     face_encodings v (preprocess_image v img) (face_locations v (preprocess_image v img)) = []"
  by (simp add: encode_face_def Let_def split: list.split)

lemma encode_face_Some_iff:
  "encode_face v img = Some e \<longleftrightarrow>
     (\<exists>es. face_encodings v (preprocess_image v img)
              (face_locations v (preprocess_image v img)) = e # es)"
  by (auto simp: encode_face_def Let_def split: list.split)

end
