(* ===== verification/App_State.thy ===== *)
theory App_State
  imports Vision
begin

text \<open>
  The state of \<^verbatim>\<open>src/FinalProject.py\<close>: its module globals (lines 9--16), the text
  and colour of \<open>result_label\<close> (line 28), the image files the program reads and writes,
  the Tk timer queue that drives the frame loop, and the camera handles that are open.
  \<^item> \<open>reference_encoding\<close>, \<open>running\<close>, \<open>frame_counter\<close> and
    \<open>current_person_count\<close> are the globals of the same name;
  \<^item> \<open>video_capture\<close> is the global capture object, \<open>None\<close> or the handle number of
    the \<open>cv2.VideoCapture(0)\<close> it holds; \<open>opened\<close> is the set of handles opened and
    not yet released, \<open>next_capture\<close> the number the next one gets;
  \<^item> \<open>after_queue\<close> counts the \<open>update_frame\<close> callbacks scheduled by
    \<open>video_label.after(10, update_frame)\<close> and not yet fired;
  \<^item> \<open>files\<close> maps a path to the (BGR) image stored there, \<open>None\<close> when there is no
    readable image.
  The YOLO model object (line 14) and the widgets are not state the logic reads.
\<close>

record 'f app =
  reference_encoding :: "encoding option"
  video_capture :: "nat option"
  running :: bool
  frame_counter :: nat
  current_person_count :: nat
  result_label :: label
  files :: "path \<Rightarrow> 'f option"
  after_queue :: nat
  opened :: "nat set"
  next_capture :: nat

text \<open>The state when \<open>window.mainloop()\<close> starts, over the files already on disk.\<close>

definition app_init :: "(path \<Rightarrow> 'f option) \<Rightarrow> 'f app" where
  "app_init fs =
     \<lparr>reference_encoding = None, video_capture = None, running = False,
      frame_counter = 0, current_person_count = 0, result_label = ('''', ''black''),
      files = fs, after_queue = 0, opened = {}, next_capture = 0\<rparr>"

end
