(* ===== verification/Enrollment.thy ===== *)
theory Enrollment
  imports App_State
begin

unbundle bit_operations_syntax

text \<open>
  The reference store: \<open>capture_reference_photo\<close> and \<open>upload_reference_photo\<close> of
  \<^verbatim>\<open>src/FinalProject.py\<close> (lines 43--83; the same code is lines 40--80 of
  \<^verbatim>\<open>src/FaceMatching.py\<close>). Capture opens its own camera, shows frames until a read
  fails or the key \<open>c\<close> is pressed, writes the frame to \<open>reference.jpg\<close>, and then
  always reloads \<open>reference.jpg\<close> and encodes it. Upload loads the chosen file and
  encodes it. Both assign \<open>reference_encoding\<close> whatever the encoder returns,
  \<open>None\<close> included. The capture loop is a loop over the camera reads and key codes of
  the dialog: on a finite prefix of them it either ends or is still running.
\<close>

section \<open>Definitions\<close>

definition reference_image_path :: path where
  "reference_image_path = ''reference.jpg''"

text \<open>\<open>cv2.waitKey(1) & 0xFF == ord('c')\<close>: the key code is a Python int (\<open>-1\<close>
  when no key was pressed), masked to its low byte.\<close>

definition key_is_c :: "int \<Rightarrow> bool" where
  "key_is_c key \<longleftrightarrow> (key AND 255) = 99"

text \<open>
  The \<open>while True\<close> loop: each element is one iteration's \<open>cap.read()\<close> (\<open>None\<close>
  when \<open>ret\<close> is false) and the key code \<open>waitKey\<close> returns after \<open>imshow\<close>. The
  result is \<open>None\<close> while the loop has not ended on the given reads, \<open>Some None\<close>
  when it broke on a failed read, \<open>Some (Some frame)\<close> when \<open>c\<close> saved \<open>frame\<close>.
\<close>

fun capture_loop :: "('f option \<times> int) list \<Rightarrow> 'f option option" where
  "capture_loop [] = None"
| "capture_loop ((None, _) # _) = Some None"
| "capture_loop ((Some frame, key) # reads) =
     (if key_is_c key then Some (Some frame) else capture_loop reads)"

text \<open>\<open>cv2.imwrite\<close> to a JPEG path and \<open>face_recognition.load_image_file\<close>.\<close>

definition imwrite :: "'f vision \<Rightarrow> path \<Rightarrow> 'f \<Rightarrow> 'f app \<Rightarrow> 'f app" where
  "imwrite v p img s = s\<lparr>files := (files s)(p \<mapsto> jpeg_codec v img)\<rparr>"

definition load_image_file :: "'f vision \<Rightarrow> 'f app \<Rightarrow> path \<Rightarrow> exn + 'f" where
  "load_image_file v s p =
     (case files s p of None \<Rightarrow> Inl FileNotFoundError | Some raw \<Rightarrow> Inr (cvt_bgr2rgb v raw))"

definition capture_reference_photo ::
  "'f vision \<Rightarrow> 'f app \<Rightarrow> ('f option \<times> int) list \<Rightarrow> 'f app \<times> outcome" where
  "capture_reference_photo v s reads =
     (case capture_loop reads of
        None \<Rightarrow> (s, Blocked)
      | Some saved \<Rightarrow>
          (let s = (case saved of None \<Rightarrow> s | Some frame \<Rightarrow> imwrite v reference_image_path frame s)
           in case load_image_file v s reference_image_path of
                Inl e \<Rightarrow> (s, Raised e)
              | Inr img \<Rightarrow>
                  (let enc = encode_face v img
                   in (s\<lparr>reference_encoding := enc,
                         result_label := (if enc \<noteq> None
                                          then (''Reference photo captured'', ''green'')
                                          else (''No face detected in reference photo'', ''red''))\<rparr>,
                       Returned))))"

text \<open>The dialog's answer is the path, \<open>''''\<close> when it was cancelled.\<close>

definition upload_reference_photo :: "'f vision \<Rightarrow> 'f app \<Rightarrow> path \<Rightarrow> 'f app \<times> outcome" where
  "upload_reference_photo v s file_path =
     (if file_path = [] then (s, Returned)
      else case load_image_file v s file_path of
        Inl e \<Rightarrow> (s, Raised e)
      | Inr img \<Rightarrow>
          (let enc = encode_face v img
           in (s\<lparr>reference_encoding := enc,
                 result_label := (if enc \<noteq> None
                                  then (''Reference photo uploaded'', ''green'')
                                  else (''No face detected in uploaded photo'', ''red''))\<rparr>,
               Returned)))"

section \<open>Lemmas\<close>

lemma capture_loop_Some_cases:
  "capture_loop reads = Some saved \<Longrightarrow>
     (saved = None \<and> (\<exists>k. (None, k) \<in> set reads))
   \<or> (\<exists>f k. saved = Some f \<and> (Some f, k) \<in> set reads \<and> key_is_c k)"
  by (induction reads rule: capture_loop.induct) (auto split: if_splits)

lemma upload_Some_eq:
  assumes "file_path \<noteq> []" and "files s file_path = Some raw"
  shows "upload_reference_photo v s file_path =
    (let enc = encode_face v (cvt_bgr2rgb v raw)
     in (s\<lparr>reference_encoding := enc,
           result_label := (if enc \<noteq> None then (''Reference photo uploaded'', ''green'')
                            else (''No face detected in uploaded photo'', ''red''))\<rparr>, Returned))"
  using assms by (simp add: upload_reference_photo_def load_image_file_def)

lemma upload_session_fields:
  "video_capture (fst (upload_reference_photo v s p)) = video_capture s
   \<and> running (fst (upload_reference_photo v s p)) = running s
   \<and> frame_counter (fst (upload_reference_photo v s p)) = frame_counter s
   \<and> current_person_count (fst (upload_reference_photo v s p)) = current_person_count s
   \<and> after_queue (fst (upload_reference_photo v s p)) = after_queue s
   \<and> opened (fst (upload_reference_photo v s p)) = opened s
   \<and> next_capture (fst (upload_reference_photo v s p)) = next_capture s"
  by (simp add: upload_reference_photo_def Let_def split: sum.split)

lemma capture_session_fields:
  "video_capture (fst (capture_reference_photo v s reads)) = video_capture s
   \<and> running (fst (capture_reference_photo v s reads)) = running s
   \<and> frame_counter (fst (capture_reference_photo v s reads)) = frame_counter s
   \<and> current_person_count (fst (capture_reference_photo v s reads)) = current_person_count s
   \<and> after_queue (fst (capture_reference_photo v s reads)) = after_queue s
   \<and> opened (fst (capture_reference_photo v s reads)) = opened s
   \<and> next_capture (fst (capture_reference_photo v s reads)) = next_capture s"
  by (simp add: capture_reference_photo_def imwrite_def Let_def split: option.split sum.split)

text \<open>C23: The capture dialog's loop ends on a finite run of reads exactly when one of
  them failed or came with the key \<open>c\<close>; otherwise it is still waiting.\<close>

theorem capture_loop_ends_iff:
  "capture_loop reads \<noteq> None \<longleftrightarrow> (\<exists>(r, k) \<in> set reads. r = None \<or> key_is_c k)"
  by (induction reads rule: capture_loop.induct) auto

theorem capture_loop_ends_iff_witness:
  "capture_loop [(Some (1::nat), -1), (Some 2, 99)] \<noteq> None
   \<and> (\<exists>(r, k) \<in> set [(Some (1::nat), -1), (Some 2, 99)]. r = None \<or> key_is_c k)"
  using capture_loop_ends_iff [of "[(Some (1::nat), -1), (Some 2, 99)]"]
  by (simp add: key_is_c_def)

text \<open>C22: Capture round trip: when the key \<open>c\<close> saves a frame, the handler returns,
  \<open>reference.jpg\<close> holds the JPEG-coded frame and the reference encoding is the
  encoding of that file read back as RGB.\<close>

theorem capture_saves_and_encodes:
  assumes "capture_loop reads = Some (Some frame)"
  shows "capture_reference_photo v s reads =
           (s\<lparr>files := (files s)(reference_image_path \<mapsto> jpeg_codec v frame),
              reference_encoding := encode_face v (cvt_bgr2rgb v (jpeg_codec v frame)),
              result_label :=
                (if encode_face v (cvt_bgr2rgb v (jpeg_codec v frame)) \<noteq> None
                 then (''Reference photo captured'', ''green'')
                 else (''No face detected in reference photo'', ''red''))\<rparr>, Returned)"
  using assms
  by (simp add: capture_reference_photo_def imwrite_def load_image_file_def Let_def)

theorem capture_saves_and_encodes_witness:
  "capture_loop [(Some (5::nat), 99)] = Some (Some 5)
   \<and> capture_reference_photo (test_vision (\<lambda>_. [[1]]) (\<lambda>_. 1)) (app_init Map.empty)
       [(Some (5::nat), 99)]
     = ((app_init Map.empty)\<lparr>files := [reference_image_path \<mapsto> 5],
          reference_encoding := Some [1],
          result_label := (''Reference photo captured'', ''green'')\<rparr>, Returned)"
proof -
  have h: "capture_loop [(Some (5::nat), 99)] = Some (Some 5)"
    by (simp add: key_is_c_def)
  show ?thesis
    using h capture_saves_and_encodes [OF h, of "test_vision (\<lambda>_. [[1]]) (\<lambda>_. 1)"]
    by (simp add: test_vision_def encode_face_def preprocess_image_def app_init_def)
qed

text \<open>C20: A stale reference: when the dialog's camera read fails before any key, nothing
  is written, yet the handler reloads whatever \<open>reference.jpg\<close> an earlier run left and
  reports \<open>Reference photo captured\<close> for it.\<close>

theorem capture_failed_read_reuses_old_file:
  assumes "capture_loop reads = Some None"
    and "files s reference_image_path = Some old"
    and "encode_face v (cvt_bgr2rgb v old) = Some e"
  shows "capture_reference_photo v s reads =
           (s\<lparr>reference_encoding := Some e,
              result_label := (''Reference photo captured'', ''green'')\<rparr>, Returned)"
  using assms by (simp add: capture_reference_photo_def load_image_file_def)

theorem capture_failed_read_reuses_old_file_witness:
  "capture_loop [(None :: nat option, -1)] = Some None
   \<and> files ((app_init Map.empty)\<lparr>files := [reference_image_path \<mapsto> 7]\<rparr>) reference_image_path
       = Some (7::nat)
   \<and> encode_face (test_vision (\<lambda>_. [[1]]) (\<lambda>_. 1)) (cvt_bgr2rgb (test_vision (\<lambda>_. [[1]]) (\<lambda>_. 1)) 7)
       = Some [1]
   \<and> capture_reference_photo (test_vision (\<lambda>_. [[1]]) (\<lambda>_. 1))
       ((app_init Map.empty)\<lparr>files := [reference_image_path \<mapsto> 7]\<rparr>) [(None, -1)]
     = ((app_init Map.empty)\<lparr>files := [reference_image_path \<mapsto> 7], reference_encoding := Some [1],
          result_label := (''Reference photo captured'', ''green'')\<rparr>, Returned)"
proof -
  let ?v = "test_vision (\<lambda>_. [[1]]) (\<lambda>_. 1)"
  let ?s = "(app_init Map.empty)\<lparr>files := [reference_image_path \<mapsto> (7::nat)]\<rparr>"
  have h1: "capture_loop [(None :: nat option, -1)] = Some None" by simp
  have h2: "files ?s reference_image_path = Some 7" by simp
  have h3: "encode_face ?v (cvt_bgr2rgb ?v 7) = Some [1]"
    by (simp add: test_vision_def encode_face_def preprocess_image_def)
  show ?thesis using capture_failed_read_reuses_old_file [OF h1 h2 h3] h1 h2 h3 by simp
qed

text \<open>C14: A failed upload (an image in which no face is found) does not keep the
  previous reference: it overwrites \<open>reference_encoding\<close> with \<open>None\<close>.\<close>

theorem upload_without_face_clears_reference:
  assumes "file_path \<noteq> []" and "files s file_path = Some raw"
    and "encode_face v (cvt_bgr2rgb v raw) = None"
  shows "reference_encoding (fst (upload_reference_photo v s file_path)) = None"
  using upload_Some_eq [OF assms(1,2)] assms(3) by (simp add: Let_def)

theorem upload_without_face_clears_reference_witness:
  "''p.jpg'' \<noteq> []
   \<and> files ((app_init Map.empty)\<lparr>reference_encoding := Some [1], files := [''p.jpg'' \<mapsto> 3]\<rparr>) ''p.jpg''
       = Some (3::nat)
   \<and> encode_face (test_vision (\<lambda>_. []) (\<lambda>_. 1)) (cvt_bgr2rgb (test_vision (\<lambda>_. []) (\<lambda>_. 1)) 3) = None
   \<and> reference_encoding (fst (upload_reference_photo (test_vision (\<lambda>_. []) (\<lambda>_. 1))
       ((app_init Map.empty)\<lparr>reference_encoding := Some [1], files := [''p.jpg'' \<mapsto> 3]\<rparr>) ''p.jpg'')) = None"
proof -
  let ?v = "test_vision (\<lambda>_. []) (\<lambda>_. 1)"
  let ?s = "(app_init Map.empty)\<lparr>reference_encoding := Some [1], files := [''p.jpg'' \<mapsto> (3::nat)]\<rparr>"
  have h1: "''p.jpg'' \<noteq> []" by simp
  have h2: "files ?s ''p.jpg'' = Some 3" by simp
  have h3: "encode_face ?v (cvt_bgr2rgb ?v 3) = None"
    by (simp add: test_vision_def encode_face_def preprocess_image_def)
  show ?thesis using upload_without_face_clears_reference [OF h1 h2 h3] h1 h2 h3 by simp
qed

text \<open>C24: Enrollment never touches the recognition session: the camera handle, the
  running flag, the frame counter, the person count and the timer queue are unchanged by
  both enrollment handlers.\<close>

theorem enrollment_keeps_session:
  assumes "t = fst (upload_reference_photo v s p) \<or> t = fst (capture_reference_photo v s reads)"
  shows "video_capture t = video_capture s \<and> running t = running s
       \<and> frame_counter t = frame_counter s \<and> current_person_count t = current_person_count s
       \<and> after_queue t = after_queue s \<and> opened t = opened s"
  using assms by (elim disjE) (simp_all add: upload_session_fields capture_session_fields)

theorem enrollment_keeps_session_witness:
  "(let v = test_vision (\<lambda>_. [[1]]) (\<lambda>_. 1); s = (app_init Map.empty)\<lparr>files := [''p.jpg'' \<mapsto> (3::nat)]\<rparr>;
        t = fst (upload_reference_photo v s ''p.jpg'')
    in (t = fst (upload_reference_photo v s ''p.jpg'') \<or> t = fst (capture_reference_photo v s []))
       \<and> video_capture t = video_capture s \<and> running t = running s
       \<and> frame_counter t = frame_counter s \<and> current_person_count t = current_person_count s
       \<and> after_queue t = after_queue s \<and> opened t = opened s)"
  unfolding Let_def
  using enrollment_keeps_session [of "fst (upload_reference_photo (test_vision (\<lambda>_. [[1]]) (\<lambda>_. 1))
            ((app_init Map.empty)\<lparr>files := [''p.jpg'' \<mapsto> (3::nat)]\<rparr>) ''p.jpg'')"]
  by blast

end
