(* ===== verification/Face_Metric.thy ===== *)
theory Face_Metric
  imports Prelude
begin

text \<open>
  The embedding-distance matching policy. \<open>face_recognition.face_distance\<close> and
  \<open>compare_faces\<close> are library functions the program only calls; they are modelled from
  their documented contract (Euclidean norm of the difference, \<open>distance \<le> tolerance\<close>
  with default tolerance 0.6). The program's own decision is the expression of
  \<^verbatim>\<open>src/FinalProject.py\<close> lines 132--135 (identical in \<^verbatim>\<open>src/FaceMatching.py\<close>
  lines 112--117):
  \<^verbatim>\<open>face_distance = face_recognition.face_distance([reference_encoding], face_encoding)[0]
  match = face_recognition.compare_faces([reference_encoding], face_encoding)[0]
  if match and face_distance < 0.6: ...\<close>
  where \<open>reference_encoding\<close> may be \<open>None\<close> (numpy then raises \<open>TypeError\<close>) and
  encodings of different lengths make numpy raise \<open>ValueError\<close>.
\<close>

section \<open>Definitions\<close>

definition euclid :: "encoding \<Rightarrow> encoding \<Rightarrow> real" where
  "euclid a b = sqrt (\<Sum>(x, y) \<leftarrow> zip a b. (x - y)\<^sup>2)"

definition face_distance :: "encoding list \<Rightarrow> encoding \<Rightarrow> real list" where
  "face_distance known e = map (\<lambda>k. euclid k e) known"

definition compare_faces :: "encoding list \<Rightarrow> encoding \<Rightarrow> real \<Rightarrow> bool list" where
  "compare_faces known e tol = map (\<lambda>d. d \<le> tol) (face_distance known e)"

definition default_tolerance :: real where
  "default_tolerance = 0.6"

definition match_threshold :: real where
  "match_threshold = 0.6"

text \<open>\<open>face_distance([reference_encoding], face_encoding)[0]\<close>.\<close>

definition ref_distance :: "encoding option \<Rightarrow> encoding \<Rightarrow> exn + real" where
  "ref_distance r e =
     (case r of
        None \<Rightarrow> Inl TypeError
      | Some k \<Rightarrow> if length k = length e then py_first (face_distance [k] e) else Inl ValueError)"

text \<open>\<open>compare_faces([reference_encoding], face_encoding, tol)[0]\<close>.\<close>

definition ref_match :: "encoding option \<Rightarrow> encoding \<Rightarrow> real \<Rightarrow> exn + bool" where
  "ref_match r e tol =
     (case r of
        None \<Rightarrow> Inl TypeError
      | Some k \<Rightarrow> if length k = length e then py_first (compare_faces [k] e tol) else Inl ValueError)"

text \<open>
  The decision \<open>match and face_distance < thr\<close>, with the library tolerance and the
  literal threshold as parameters; the program uses \<open>same_person\<close> below.
\<close>

definition same_person_at :: "real \<Rightarrow> real \<Rightarrow> encoding option \<Rightarrow> encoding \<Rightarrow> exn + bool" where
  "same_person_at tol thr r e =
     (case ref_distance r e of
        Inl x \<Rightarrow> Inl x
      | Inr d \<Rightarrow> (case ref_match r e tol of
                   Inl x \<Rightarrow> Inl x
                 | Inr m \<Rightarrow> Inr (m \<and> d < thr)))"

definition same_person :: "encoding option \<Rightarrow> encoding \<Rightarrow> exn + bool" where
  "same_person r e = same_person_at default_tolerance match_threshold r e"

section \<open>The metric\<close>

lemma sum_squares_nonneg: "0 \<le> (\<Sum>(x, y) \<leftarrow> zip a b. (x - y)\<^sup>2 :: real)"
  by (induction a b rule: list_induct2') auto

lemma euclid_nonneg: "0 \<le> euclid a b"
  by (simp add: euclid_def sum_squares_nonneg)

lemma euclid_self [simp]: "euclid a a = 0"
proof -
  have "(\<Sum>(x, y) \<leftarrow> zip a a. (x - y)\<^sup>2) = (0::real)"
    by (induction a) auto
  then show ?thesis by (simp add: euclid_def)
qed

lemma euclid_sym: "euclid a b = euclid b a"
proof -
  have "(\<Sum>(x, y) \<leftarrow> zip a b. (x - y)\<^sup>2) = (\<Sum>(x, y) \<leftarrow> zip b a. (x - y)\<^sup>2 :: real)"
    by (induction a b rule: list_induct2') (auto simp: power2_commute)
  then show ?thesis by (simp add: euclid_def)
qed

text \<open>Comparing a distance with a positive bound needs no square root.\<close>

lemma euclid_less_iff:
  "0 < t \<Longrightarrow> euclid a b < t \<longleftrightarrow> (\<Sum>(x, y) \<leftarrow> zip a b. (x - y)\<^sup>2) < t\<^sup>2"
  unfolding euclid_def using sum_squares_nonneg [of a b]
  by (metis abs_of_pos real_sqrt_abs real_sqrt_less_iff)

lemma euclid_le_iff:
  "0 \<le> t \<Longrightarrow> euclid a b \<le> t \<longleftrightarrow> (\<Sum>(x, y) \<leftarrow> zip a b. (x - y)\<^sup>2) \<le> t\<^sup>2"
  unfolding euclid_def using sum_squares_nonneg [of a b]
  by (metis abs_of_nonneg real_sqrt_abs real_sqrt_le_iff)

section \<open>The program's decision\<close>

lemma ref_distance_eq:
  "ref_distance r e =
     (case r of
        None \<Rightarrow> Inl TypeError
      | Some k \<Rightarrow> if length k = length e then Inr (euclid k e) else Inl ValueError)"
  by (simp add: ref_distance_def face_distance_def split: option.split)

lemma ref_match_eq:
  "ref_match r e tol =
     (case r of
        None \<Rightarrow> Inl TypeError
      | Some k \<Rightarrow> if length k = length e then Inr (euclid k e \<le> tol) else Inl ValueError)"
  by (simp add: ref_match_def compare_faces_def face_distance_def split: option.split)

lemma same_person_at_eq:
  "same_person_at tol thr r e =
     (case r of
        None \<Rightarrow> Inl TypeError
      | Some k \<Rightarrow> if length k = length e then Inr (euclid k e \<le> tol \<and> euclid k e < thr)
                 else Inl ValueError)"
  by (simp add: same_person_at_def ref_distance_eq ref_match_eq split: option.split)

lemma same_person_eq:
  "same_person r e =
     (case r of
        None \<Rightarrow> Inl TypeError
      | Some k \<Rightarrow> if length k = length e then Inr (euclid k e \<le> 0.6 \<and> euclid k e < 0.6)
                 else Inl ValueError)"
  by (simp add: same_person_def same_person_at_eq default_tolerance_def match_threshold_def
      split: option.split)

lemma same_person_Some:
  "length k = length e \<Longrightarrow> same_person (Some k) e = Inr (euclid k e < 0.6)"
  by (auto simp: same_person_eq)

lemmas metric_simps = same_person_eq ref_distance_eq ref_match_eq

text \<open>C5: The combined test \<open>match and face_distance < 0.6\<close> is the single strict test
  \<open>distance < 0.6\<close> (the \<open>compare_faces\<close> conjunct is redundant); a missing reference
  raises \<open>TypeError\<close> and encodings of different lengths raise \<open>ValueError\<close>.\<close>

theorem same_person_strict_threshold:
  "same_person r e =
     (case r of
        None \<Rightarrow> Inl TypeError
      | Some k \<Rightarrow> if length k = length e then Inr (euclid k e < 0.6) else Inl ValueError)"
  by (auto simp: same_person_eq split: option.split)

text \<open>Reflexivity: a face matched against its own enrolled encoding is the same
  person.\<close>

theorem same_person_reflexive: "same_person (Some e) e = Inr True"
  by (simp add: same_person_eq)

text \<open>Monotonicity: loosening the tolerance and the threshold never rejects a face
  that the stricter setting accepted.\<close>

theorem same_person_at_mono:
  assumes "tol1 \<le> tol2" and "thr1 \<le> thr2"
    and "same_person_at tol1 thr1 r e = Inr True"
  shows "same_person_at tol2 thr2 r e = Inr True"
  using assms by (auto simp: same_person_at_eq split: option.splits if_splits)

theorem same_person_at_mono_witness:
  "(0.5::real) \<le> 0.6 \<and> (0.5::real) \<le> 0.6
   \<and> same_person_at 0.5 0.5 (Some [0, 0]) [0.3, 0.3] = Inr True
   \<and> same_person_at 0.6 0.6 (Some [0, 0]) [0.3, 0.3] = Inr True"
proof -
  have d: "euclid [0, 0] [0.3, 0.3] < 0.5"
    by (subst euclid_less_iff) (simp_all add: power_divide)
  then have h: "same_person_at 0.5 0.5 (Some [0, 0]) [0.3, 0.3] = Inr True"
    by (simp add: same_person_at_eq)
  have "same_person_at 0.6 0.6 (Some [0, 0]) [0.3, 0.3] = Inr True"
    by (rule same_person_at_mono [OF _ _ h]) simp_all
  with h show ?thesis by simp
qed

text \<open>The decision does not depend on which of the two encodings is the reference.\<close>

theorem same_person_symmetric:
  "same_person (Some a) b = same_person (Some b) a"
  by (simp add: same_person_eq euclid_sym)

end
