(* ===== verification/Recognition.thy ===== *)
theory Recognition
  imports Face_Metric App_State
begin

text \<open>
  The decision engine of \<^verbatim>\<open>src/FinalProject.py\<close>: \<open>recognize_live\<close> (lines
  85--93), \<open>update_frame\<close> (lines 95--171) and \<open>stop_camera\<close> (lines 173--178).
  One call of \<open>update_frame\<close> is one decision cycle: it returns at once when the session
  is not running or the camera read fails (without rescheduling itself); otherwise it
  refreshes the cached person count with YOLO when \<open>frame_counter % 5 == 0\<close>, gates the
  face work on exactly one person, sets the result label, increments the counter and
  schedules the next call. An exception (a \<open>None\<close> reference reaching numpy, an empty
  location list) ends the call after the person count was written: Tk prints it and the
  loop is not rescheduled. Drawing on the frame and the video widget are rendering only;
  the face box the cycle hands to rendering is part of its result.
\<close>

section \<open>Definitions\<close>

text \<open>The label texts and colours \<open>update_frame\<close> sets.\<close>

datatype verdict = Same_Person | Different_Person | No_Face | Multiple_Persons | No_Person | Blank

fun verdict_label :: "verdict \<Rightarrow> label" where
  "verdict_label Same_Person = (''Same Person'', ''green'')"
| "verdict_label Different_Person = (''Different Person'', ''red'')"
| "verdict_label No_Face = (''No face detected'', ''gray'')"
| "verdict_label Multiple_Persons = (''More than one person detected!'', ''orange'')"
| "verdict_label No_Person = (''No person detected'', ''gray'')"
| "verdict_label Blank = ('''', ''black'')"

text \<open>
  What one callback did: returned because the session is not running, returned because
  the read failed, raised (the flag says whether YOLO ran first), or decided a verdict
  (the flag says whether YOLO ran in this cycle; the box is the face drawn, scaled back to
  the full frame).
\<close>

datatype cycle = Skipped | No_Frame | Crashed bool exn | Decided bool verdict "loc option"

definition detection_interval :: nat where
  "detection_interval = 5"

text \<open>\<open>for result in results: current_person_count = len(result.boxes)\<close>.\<close>

definition yolo_count :: "box list list \<Rightarrow> nat \<Rightarrow> nat" where
  "yolo_count results count = fold (\<lambda>boxes _. length boxes) results count"

definition refresh_person_count :: "'f vision \<Rightarrow> 'f \<Rightarrow> nat \<Rightarrow> nat \<Rightarrow> nat" where
  "refresh_person_count v frame counter count =
     (if counter mod detection_interval = 0
      then yolo_count (yolo_predict v frame 0.3 [0]) count else count)"

text \<open>\<open>top *= 2; right *= 2; bottom *= 2; left *= 2\<close>.\<close>

fun scale_box :: "loc \<Rightarrow> loc" where
  "scale_box (t, r, b, l) = (t * 2, r * 2, b * 2, l * 2)"

text \<open>Lines 126--159: the gate on the person count and the face work behind it.\<close>

definition face_stage ::
  "'f vision \<Rightarrow> encoding option \<Rightarrow> 'f \<Rightarrow> nat \<Rightarrow> exn + (verdict \<times> loc option)" where
  "face_stage v ref processed count =
     (if count = 1 then
        (let locs = face_locations v processed;
             encs = face_encodings v processed locs
         in case encs of
              [] \<Rightarrow> Inr (No_Face, None)
            | enc # _ \<Rightarrow>
                (case same_person ref enc of
                   Inl e \<Rightarrow> Inl e
                 | Inr m \<Rightarrow>
                     (case py_first locs of
                        Inl e \<Rightarrow> Inl e
                      | Inr loc \<Rightarrow>
                          Inr (if m then Same_Person else Different_Person, Some (scale_box loc)))))
      else if count > 1 then Inr (Multiple_Persons, None)
      else if count = 0 then Inr (No_Person, None)
      else Inr (Blank, None))"

definition update_frame :: "'f vision \<Rightarrow> 'f app \<Rightarrow> 'f option \<Rightarrow> 'f app \<times> cycle" where
  "update_frame v s read =
     (if \<not> running s then (s, Skipped)
      else case read of
        None \<Rightarrow> (s, No_Frame)
      | Some frame \<Rightarrow>
          (let small_frame = resize_half v (cvt_bgr2rgb v frame);
               processed = preprocess_image v small_frame;
               due = (frame_counter s mod detection_interval = 0);
               s = s\<lparr>current_person_count :=
                      refresh_person_count v frame (frame_counter s) (current_person_count s)\<rparr>
           in case face_stage v (reference_encoding s) processed (current_person_count s) of
                Inl e \<Rightarrow> (s, Crashed due e)
              | Inr (vd, box) \<Rightarrow>
                  (s\<lparr>result_label := verdict_label vd,
                     frame_counter := Suc (frame_counter s),
                     after_queue := Suc (after_queue s)\<rparr>, Decided due vd box)))"

definition recognize_live :: "'f vision \<Rightarrow> 'f app \<Rightarrow> 'f option \<Rightarrow> 'f app \<times> outcome" where
  "recognize_live v s read =
     (if reference_encoding s = None
      then (s, Shown_Error ''Please set a reference photo first!'')
      else
        (let h = next_capture s;
             s = s\<lparr>video_capture := Some h, opened := insert h (opened s),
                   next_capture := Suc h, running := True\<rparr>
         in case update_frame v s read of
              (s', Crashed _ e) \<Rightarrow> (s', Raised e)
            | (s', _) \<Rightarrow> (s', Returned)))"

definition stop_camera :: "'f app \<Rightarrow> 'f app" where
  "stop_camera s =
     (let s = s\<lparr>running := False\<rparr>
      in case video_capture s of
           None \<Rightarrow> s
         | Some h \<Rightarrow> s\<lparr>opened := opened s - {h}, result_label := (''Camera stopped'', ''black'')\<rparr>)"

section \<open>The gate\<close>

lemma face_stage_identity_count:
  "face_stage v ref p count = Inr (vd, box) \<Longrightarrow> vd = Same_Person \<or> vd = Different_Person
   \<Longrightarrow> count = 1"
  by (auto simp: face_stage_def Let_def split: if_splits list.splits sum.splits)

lemma face_stage_many [simp]: "1 < count \<Longrightarrow> face_stage v ref p count = Inr (Multiple_Persons, None)"
  by (simp add: face_stage_def)

lemma face_stage_zero [simp]: "face_stage v ref p 0 = Inr (No_Person, None)"
  by (simp add: face_stage_def)

lemma face_stage_one:
  assumes "face_locations v p = loc # locs" and "face_encodings v p (loc # locs) = enc # encs"
  shows "face_stage v ref p 1 =
           (case same_person ref enc of
              Inl e \<Rightarrow> Inl e
            | Inr m \<Rightarrow> Inr (if m then Same_Person else Different_Person, Some (scale_box loc)))"
  using assms by (simp add: face_stage_def split: sum.split)

lemma face_stage_Blank: "face_stage v ref p count \<noteq> Inr (Blank, box)"
  by (auto simp: face_stage_def Let_def split: if_splits list.splits sum.splits)

section \<open>One decision cycle\<close>

lemma update_frame_not_running [simp]: "\<not> running s \<Longrightarrow> update_frame v s r = (s, Skipped)"
  by (simp add: update_frame_def)

lemma update_frame_no_read [simp]: "running s \<Longrightarrow> update_frame v s None = (s, No_Frame)"
  by (simp add: update_frame_def)

lemma update_frame_read:
  assumes "running s"
  shows "update_frame v s (Some frame) =
    (let c = refresh_person_count v frame (frame_counter s) (current_person_count s);
         t = s\<lparr>current_person_count := c\<rparr>;
         due = (frame_counter s mod 5 = 0)
     in case face_stage v (reference_encoding s)
               (preprocess_image v (resize_half v (cvt_bgr2rgb v frame))) c of
          Inl e \<Rightarrow> (t, Crashed due e)
        | Inr (vd, box) \<Rightarrow>
            (t\<lparr>result_label := verdict_label vd, frame_counter := Suc (frame_counter s),
               after_queue := Suc (after_queue s)\<rparr>, Decided due vd box))"
  using assms by (simp add: update_frame_def detection_interval_def Let_def split: sum.split)

lemma update_frame_Decided:
  assumes "update_frame v s r = (t, Decided b vd box)"
  obtains frame where "running s" and "r = Some frame"
    and "face_stage v (reference_encoding s) (preprocess_image v (resize_half v (cvt_bgr2rgb v frame)))
           (current_person_count t) = Inr (vd, box)"
    and "current_person_count t = refresh_person_count v frame (frame_counter s) (current_person_count s)"
    and "b = (frame_counter s mod 5 = 0)"
    and "t = s\<lparr>current_person_count := current_person_count t, result_label := verdict_label vd,
               frame_counter := Suc (frame_counter s), after_queue := Suc (after_queue s)\<rparr>"
proof -
  from assms have run: "running s" by (cases "running s") auto
  from assms run obtain frame where r: "r = Some frame" by (cases r) auto
  show ?thesis
    using assms that [OF run r] run r
    by (auto simp: update_frame_read Let_def split: sum.splits)
qed

lemma update_frame_Crashed:
  assumes "update_frame v s r = (t, Crashed b e)"
  shows "running s \<and> r \<noteq> None \<and> result_label t = result_label s \<and> frame_counter t = frame_counter s
       \<and> after_queue t = after_queue s \<and> running t = running s \<and> video_capture t = video_capture s
       \<and> opened t = opened s \<and> reference_encoding t = reference_encoding s"
proof -
  from assms have run: "running s" by (cases "running s") auto
  from assms run obtain frame where r: "r = Some frame" by (cases r) auto
  show ?thesis using assms run r by (auto simp: update_frame_read Let_def split: sum.splits)
qed

lemma update_frame_keeps:
  "video_capture (fst (update_frame v s r)) = video_capture s
   \<and> running (fst (update_frame v s r)) = running s
   \<and> opened (fst (update_frame v s r)) = opened s
   \<and> next_capture (fst (update_frame v s r)) = next_capture s
   \<and> reference_encoding (fst (update_frame v s r)) = reference_encoding s
   \<and> files (fst (update_frame v s r)) = files s"
  by (auto simp: update_frame_def Let_def split: option.split sum.split prod.split)

lemma update_frame_counter:
  "frame_counter (fst (update_frame v s r)) = frame_counter s
   \<or> frame_counter (fst (update_frame v s r)) = Suc (frame_counter s)"
  by (auto simp: update_frame_def Let_def split: option.split sum.split prod.split)

lemma stop_camera_eq:
  "stop_camera s =
     (case video_capture s of
        None \<Rightarrow> s\<lparr>running := False\<rparr>
      | Some h \<Rightarrow> s\<lparr>running := False, opened := opened s - {h},
                    result_label := (''Camera stopped'', ''black'')\<rparr>)"
  by (simp add: stop_camera_def split: option.split)

lemmas cycle_simps = update_frame_read refresh_person_count_def detection_interval_def
  yolo_count_def face_stage_def Let_def

section \<open>Properties of the decision cycle\<close>

text \<open>C1: Gating: a cycle that reports an identity verdict (\<open>Same Person\<close> or
  \<open>Different Person\<close>) did so with exactly one person in the cached YOLO count.\<close>

theorem identity_verdict_needs_one_person:
  assumes "update_frame v s r = (t, Decided b vd box)"
    and "vd = Same_Person \<or> vd = Different_Person"
  shows "current_person_count t = 1"
proof -
  from assms(1) obtain frame where
    "face_stage v (reference_encoding s) (preprocess_image v (resize_half v (cvt_bgr2rgb v frame)))
       (current_person_count t) = Inr (vd, box)"
    by (rule update_frame_Decided)
  then show ?thesis using assms(2) by (rule face_stage_identity_count)
qed

theorem identity_verdict_needs_one_person_witness:
  "update_frame (test_vision (\<lambda>_. [[0]]) (\<lambda>_. 1))
     ((app_init Map.empty)\<lparr>reference_encoding := Some [0], running := True\<rparr>) (Some 0)
   = ((app_init Map.empty)\<lparr>reference_encoding := Some [0], running := True,
        current_person_count := 1, result_label := (''Same Person'', ''green''),
        frame_counter := 1, after_queue := 1\<rparr>, Decided True Same_Person (Some (0, 0, 0, 0)))
   \<and> current_person_count ((app_init Map.empty)\<lparr>reference_encoding := Some [0], running := True,
        current_person_count := 1, result_label := (''Same Person'', ''green''),
        frame_counter := 1, after_queue := 1\<rparr>) = 1"
proof -
  let ?v = "test_vision (\<lambda>_. [[0]]) (\<lambda>_. 1)"
  let ?s = "(app_init Map.empty)\<lparr>reference_encoding := Some [0], running := True\<rparr>"
  let ?t = "?s\<lparr>current_person_count := 1, result_label := (''Same Person'', ''green''),
        frame_counter := 1, after_queue := 1\<rparr>"
  have h: "update_frame ?v ?s (Some 0) = (?t, Decided True Same_Person (Some (0, 0, 0, 0)))"
    by (simp add: cycle_simps test_vision_def app_init_def preprocess_image_def same_person_eq)
  show ?thesis
    using h identity_verdict_needs_one_person [OF h] by simp
qed

text \<open>C2: More than one person in the (refreshed) count: the verdict is
  \<open>More than one person detected!\<close>, no face work is done, the counter advances and the
  loop is rescheduled.\<close>

theorem multiple_persons_verdict:
  assumes "running s"
    and "1 < refresh_person_count v frame (frame_counter s) (current_person_count s)"
  shows "update_frame v s (Some frame) =
    (s\<lparr>current_person_count := refresh_person_count v frame (frame_counter s) (current_person_count s),
       result_label := (''More than one person detected!'', ''orange''),
       frame_counter := Suc (frame_counter s), after_queue := Suc (after_queue s)\<rparr>,
     Decided (frame_counter s mod 5 = 0) Multiple_Persons None)"
  using assms by (simp add: update_frame_read Let_def)

theorem multiple_persons_verdict_witness:
  "running ((app_init Map.empty)\<lparr>running := True\<rparr>)
   \<and> 1 < refresh_person_count (test_vision (\<lambda>_. []) (\<lambda>_. 2)) 0 0 0
   \<and> update_frame (test_vision (\<lambda>_. []) (\<lambda>_. 2)) ((app_init Map.empty)\<lparr>running := True\<rparr>) (Some 0)
     = ((app_init Map.empty)\<lparr>running := True, current_person_count := 2,
          result_label := (''More than one person detected!'', ''orange''),
          frame_counter := 1, after_queue := 1\<rparr>, Decided True Multiple_Persons None)"
proof -
  let ?v = "test_vision (\<lambda>_. []) (\<lambda>_. 2)"
  let ?s = "(app_init Map.empty)\<lparr>running := True\<rparr> :: nat app"
  have h1: "running ?s" by simp
  have c: "refresh_person_count ?v 0 (frame_counter ?s) (current_person_count ?s) = 2"
    by (simp add: refresh_person_count_def detection_interval_def yolo_count_def test_vision_def
        app_init_def)
  then have h2: "1 < refresh_person_count ?v 0 (frame_counter ?s) (current_person_count ?s)" by simp
  show ?thesis using multiple_persons_verdict [OF h1 h2] c by (simp add: app_init_def)
qed

text \<open>C3: No person in the (refreshed) count: the verdict is \<open>No person detected\<close>,
  whatever the reference and the faces in the frame.\<close>

theorem no_person_verdict:
  assumes "running s"
    and "refresh_person_count v frame (frame_counter s) (current_person_count s) = 0"
  shows "update_frame v s (Some frame) =
    (s\<lparr>current_person_count := 0, result_label := (''No person detected'', ''gray''),
       frame_counter := Suc (frame_counter s), after_queue := Suc (after_queue s)\<rparr>,
     Decided (frame_counter s mod 5 = 0) No_Person None)"
  using assms by (simp add: update_frame_read Let_def)

theorem no_person_verdict_witness:
  "running ((app_init Map.empty)\<lparr>running := True\<rparr>)
   \<and> refresh_person_count (test_vision (\<lambda>_. [[0]]) (\<lambda>_. 0)) 0 0 0 = 0
   \<and> update_frame (test_vision (\<lambda>_. [[0]]) (\<lambda>_. 0)) ((app_init Map.empty)\<lparr>running := True\<rparr>) (Some 0)
     = ((app_init Map.empty)\<lparr>running := True, current_person_count := 0,
          result_label := (''No person detected'', ''gray''),
          frame_counter := 1, after_queue := 1\<rparr>, Decided True No_Person None)"
proof -
  let ?v = "test_vision (\<lambda>_. [[0]]) (\<lambda>_. 0)"
  let ?s = "(app_init Map.empty)\<lparr>running := True\<rparr> :: nat app"
  have h1: "running ?s" by simp
  have h2: "refresh_person_count ?v 0 (frame_counter ?s) (current_person_count ?s) = 0"
    by (simp add: refresh_person_count_def detection_interval_def yolo_count_def test_vision_def
        app_init_def)
  show ?thesis using no_person_verdict [OF h1 h2] h2 by (simp add: app_init_def)
qed

text \<open>C4: Exactly one person and a face found: the verdict is \<open>Same Person\<close> iff the
  Euclidean distance between the reference and the first face's encoding is below 0.6,
  else \<open>Different Person\<close>; the box handed to rendering is the first face location
  scaled by 2.\<close>

theorem single_person_verdict:
  assumes "running s"
    and "refresh_person_count v frame (frame_counter s) (current_person_count s) = 1"
    and "p = preprocess_image v (resize_half v (cvt_bgr2rgb v frame))"
    and "face_locations v p = loc # locs" and "face_encodings v p (loc # locs) = enc # encs"
    and "reference_encoding s = Some k" and "length k = length enc"
  shows "snd (update_frame v s (Some frame)) =
    Decided (frame_counter s mod 5 = 0)
      (if euclid k enc < 0.6 then Same_Person else Different_Person) (Some (scale_box loc))"
proof -
  have sp: "same_person (Some k) enc = Inr (euclid k enc < 0.6)"
    using assms(7) by (rule same_person_Some)
  have "face_stage v (Some k) p 1 =
          Inr (if euclid k enc < 0.6 then Same_Person else Different_Person, Some (scale_box loc))"
    using face_stage_one [OF assms(4,5), of "Some k"] sp by simp
  then show ?thesis using assms(1,2,3,6) by (simp add: update_frame_read Let_def)
qed

theorem single_person_verdict_witness:
  "snd (update_frame (test_vision (\<lambda>_. [[3, 4]]) (\<lambda>_. 1))
          ((app_init Map.empty)\<lparr>reference_encoding := Some [0, 0], running := True\<rparr>) (Some 0))
   = Decided True Different_Person (Some (0, 0, 0, 0))"
proof -
  let ?v = "test_vision (\<lambda>_. [[3, 4]]) (\<lambda>_. 1)"
  let ?s = "(app_init Map.empty)\<lparr>reference_encoding := Some [0, 0], running := True\<rparr> :: nat app"
  have h1: "running ?s" by simp
  have h2: "refresh_person_count ?v 0 (frame_counter ?s) (current_person_count ?s) = 1"
    by (simp add: refresh_person_count_def detection_interval_def yolo_count_def test_vision_def
        app_init_def)
  have h4: "face_locations ?v (preprocess_image ?v (resize_half ?v (cvt_bgr2rgb ?v 0))) = (0, 0, 0, 0) # []"
    by (simp add: test_vision_def preprocess_image_def)
  have h5: "face_encodings ?v (preprocess_image ?v (resize_half ?v (cvt_bgr2rgb ?v 0)))
              ((0, 0, 0, 0) # []) = [3, 4] # []"
    by (simp add: test_vision_def preprocess_image_def)
  have d: "\<not> euclid [0, 0] [3, 4] < 0.6" by (simp add: euclid_def)
  show ?thesis
    using single_person_verdict [OF h1 h2 refl h4 h5, of "[0, 0]"] d by (simp add: app_init_def)
qed

text \<open>C6: Cadence: a decided cycle replaces the person count by the count of YOLO's result
  on this very frame (confidence 0.3, class 0) exactly when the frame counter is a
  multiple of 5, keeps the cached count otherwise, and advances the counter by one.\<close>

theorem detector_cadence:
  assumes "update_frame v s (Some frame) = (t, Decided b vd box)"
  shows "current_person_count t =
           (if frame_counter s mod 5 = 0
            then yolo_count (yolo_predict v frame 0.3 [0]) (current_person_count s)
            else current_person_count s)
       \<and> frame_counter t = Suc (frame_counter s)"
proof -
  from assms obtain frame' where r: "Some frame = Some frame'" and
    c: "current_person_count t = refresh_person_count v frame' (frame_counter s) (current_person_count s)"
    and t: "t = s\<lparr>current_person_count := current_person_count t, result_label := verdict_label vd,
               frame_counter := Suc (frame_counter s), after_queue := Suc (after_queue s)\<rparr>"
    by (rule update_frame_Decided)
  from t have "frame_counter t = Suc (frame_counter s)" by (metis app.select_convs(4) app.surjective
      app.update_convs(4) app.update_convs(5) app.update_convs(6) app.update_convs(8))
  with r c show ?thesis by (simp add: refresh_person_count_def detection_interval_def)
qed

theorem detector_cadence_witness:
  "current_person_count (fst (update_frame (test_vision (\<lambda>_. []) (\<lambda>_. 2))
      ((app_init Map.empty)\<lparr>running := True, frame_counter := 5, current_person_count := 1\<rparr>) (Some 0))) = 2
   \<and> frame_counter (fst (update_frame (test_vision (\<lambda>_. []) (\<lambda>_. 2))
      ((app_init Map.empty)\<lparr>running := True, frame_counter := 5, current_person_count := 1\<rparr>) (Some 0))) = 6"
proof -
  let ?v = "test_vision (\<lambda>_. []) (\<lambda>_. 2)"
  let ?s = "(app_init Map.empty)\<lparr>running := True, frame_counter := 5, current_person_count := 1\<rparr> :: nat app"
  let ?t = "(app_init Map.empty)\<lparr>running := True, frame_counter := 6, current_person_count := 2,
        result_label := (''More than one person detected!'', ''orange''), after_queue := 1\<rparr> :: nat app"
  have h: "update_frame ?v ?s (Some 0) = (?t, Decided True Multiple_Persons None)"
    by (simp add: cycle_simps test_vision_def app_init_def preprocess_image_def yolo_count_def)
  have "yolo_count (yolo_predict ?v 0 0.3 [0]) 1 = 2" by (simp add: test_vision_def yolo_count_def)
  then show ?thesis using h detector_cadence [OF h] by simp
qed

text \<open>C15: A reference that is \<open>None\<close> while the session runs (an upload without a
  face makes it so) crashes the first cycle that sees one person and a face: numpy raises
  \<open>TypeError\<close>, the label and counter are not updated and the loop is not rescheduled,
  although \<open>running\<close> stays true.\<close>

theorem missing_reference_crashes_cycle:
  assumes "running s" and "reference_encoding s = None"
    and "refresh_person_count v frame (frame_counter s) (current_person_count s) = 1"
    and "p = preprocess_image v (resize_half v (cvt_bgr2rgb v frame))"
    and "face_encodings v p (face_locations v p) \<noteq> []"
  shows "update_frame v s (Some frame) =
           (s\<lparr>current_person_count := 1\<rparr>, Crashed (frame_counter s mod 5 = 0) TypeError)"
  using assms
  by (auto simp: update_frame_read face_stage_def same_person_eq Let_def neq_Nil_conv)

theorem missing_reference_crashes_cycle_witness:
  "update_frame (test_vision (\<lambda>_. [[0]]) (\<lambda>_. 1)) ((app_init Map.empty)\<lparr>running := True\<rparr>) (Some 0)
   = ((app_init Map.empty)\<lparr>running := True, current_person_count := 1\<rparr>, Crashed True TypeError)"
proof -
  let ?v = "test_vision (\<lambda>_. [[0]]) (\<lambda>_. 1)"
  let ?s = "(app_init Map.empty)\<lparr>running := True\<rparr> :: nat app"
  have h1: "running ?s" by simp
  have h2: "reference_encoding ?s = None" by (simp add: app_init_def)
  have h3: "refresh_person_count ?v 0 (frame_counter ?s) (current_person_count ?s) = 1"
    by (simp add: refresh_person_count_def detection_interval_def yolo_count_def test_vision_def
        app_init_def)
  have h5: "face_encodings ?v (preprocess_image ?v (resize_half ?v (cvt_bgr2rgb ?v 0)))
       (face_locations ?v (preprocess_image ?v (resize_half ?v (cvt_bgr2rgb ?v 0)))) \<noteq> []"
    by (simp add: test_vision_def preprocess_image_def)
  show ?thesis using missing_reference_crashes_cycle [OF h1 h2 h3 refl h5] by (simp add: app_init_def)
qed

text \<open>\<open>stop_camera\<close> is idempotent: stopping a stopped session changes nothing more.\<close>

theorem stop_camera_idempotent: "stop_camera (stop_camera s) = stop_camera s"
  by (simp add: stop_camera_eq split: option.split)

end
