(* ===== verification/Session.thy ===== *)
theory Session
  imports Enrollment Recognition
begin

text \<open>
  The application of \<^verbatim>\<open>src/FinalProject.py\<close> as a whole: the four buttons (lines
  180--194) and the Tk timer that fires the callbacks \<open>update_frame\<close> scheduled with
  \<open>video_label.after(10, update_frame)\<close>. Tk runs one callback at a time to completion,
  so the application is a deterministic step function over events; a timer event fires one
  pending callback (and none when the queue is empty). Reachable states are the states a
  sequence of events produces from the start of \<open>window.mainloop()\<close>.
\<close>

section \<open>Definitions\<close>

datatype 'f event =
    Capture_Click "('f option \<times> int) list"
  | Upload_Click path
  | Start_Click "'f option"
  | Stop_Click
  | Timer "'f option"

text \<open>One pending \<open>update_frame\<close> callback fires with the given camera read.\<close>

definition timer_fire :: "'f vision \<Rightarrow> 'f app \<Rightarrow> 'f option \<Rightarrow> ('f app \<times> cycle) option" where
  "timer_fire v s r =
     (if after_queue s = 0 then None
      else Some (update_frame v (s\<lparr>after_queue := after_queue s - 1\<rparr>) r))"

fun app_step :: "'f vision \<Rightarrow> 'f app \<Rightarrow> 'f event \<Rightarrow> 'f app" where
  "app_step v s (Capture_Click reads) = fst (capture_reference_photo v s reads)"
| "app_step v s (Upload_Click p) = fst (upload_reference_photo v s p)"
| "app_step v s (Start_Click r) = fst (recognize_live v s r)"
| "app_step v s Stop_Click = stop_camera s"
| "app_step v s (Timer r) = (case timer_fire v s r of None \<Rightarrow> s | Some (t, _) \<Rightarrow> t)"

fun app_run :: "'f vision \<Rightarrow> 'f app \<Rightarrow> 'f event list \<Rightarrow> 'f app" where
  "app_run v s [] = s"
| "app_run v s (e # es) = app_run v (app_step v s e) es"

inductive reachable :: "'f vision \<Rightarrow> (path \<Rightarrow> 'f option) \<Rightarrow> 'f app \<Rightarrow> bool" for v fs where
  init: "reachable v fs (app_init fs)"
| step: "reachable v fs s \<Longrightarrow> reachable v fs (app_step v s e)"

text \<open>A run of timer events only, with the cycles the fired callbacks report.\<close>

fun timer_run :: "'f vision \<Rightarrow> 'f app \<Rightarrow> 'f option list \<Rightarrow> 'f app \<times> cycle list" where
  "timer_run v s [] = (s, [])"
| "timer_run v s (r # rs) =
     (case timer_fire v s r of
        None \<Rightarrow> timer_run v s rs
      | Some (t, c) \<Rightarrow> (let (u, cs) = timer_run v t rs in (u, c # cs)))"

text \<open>Whether YOLO ran, for each decided cycle in order.\<close>

fun decided_flags :: "cycle list \<Rightarrow> bool list" where
  "decided_flags [] = []"
| "decided_flags (Decided b _ _ # cs) = b # decided_flags cs"
| "decided_flags (_ # cs) = decided_flags cs"

text \<open>
  The camera invariant: the global capture is the handle opened last; while the session
  runs that handle is open; every open handle was opened by \<open>recognize_live\<close>.
\<close>

definition app_inv :: "'f app \<Rightarrow> bool" where
  "app_inv s \<longleftrightarrow>
     (case video_capture s of
        None \<Rightarrow> \<not> running s \<and> next_capture s = 0
      | Some h \<Rightarrow> Suc h = next_capture s \<and> (running s \<longrightarrow> h \<in> opened s))
     \<and> (\<forall>h \<in> opened s. h < next_capture s)"

section \<open>Lemmas\<close>

inductive_cases reachable_stepE: "reachable v fs t"

lemma app_run_append: "app_run v s (es @ fs) = app_run v (app_run v s es) fs"
  by (induction es arbitrary: s) auto

lemma reachable_app_run: "reachable v fs s \<Longrightarrow> reachable v fs (app_run v s es)"
  by (induction es arbitrary: s) (auto intro: reachable.step)

lemma recognize_live_eq:
  "reference_encoding s = Some k \<Longrightarrow>
   fst (recognize_live v s r) =
     fst (update_frame v (s\<lparr>video_capture := Some (next_capture s),
                            opened := insert (next_capture s) (opened s),
                            next_capture := Suc (next_capture s), running := True\<rparr>) r)"
  by (auto simp: recognize_live_def Let_def split: prod.split cycle.split)

lemma recognize_live_no_ref [simp]:
  "reference_encoding s = None \<Longrightarrow> fst (recognize_live v s r) = s"
  by (simp add: recognize_live_def)

lemma app_step_Timer:
  "app_step v s (Timer r) =
     (if after_queue s = 0 then s else fst (update_frame v (s\<lparr>after_queue := after_queue s - 1\<rparr>) r))"
  by (simp add: timer_fire_def split: prod.split)

declare app_step.simps(5) [simp del] app_step_Timer [simp]

lemma app_step_session_fields:
  assumes "e = Capture_Click reads \<or> e = Upload_Click p \<or> e = Timer r"
  shows "video_capture (app_step v s e) = video_capture s \<and> running (app_step v s e) = running s
       \<and> opened (app_step v s e) = opened s \<and> next_capture (app_step v s e) = next_capture s"
  using assms
  by (elim disjE) (simp_all add: upload_session_fields capture_session_fields app_step_Timer
      update_frame_keeps)

lemma app_inv_cong:
  "video_capture t = video_capture s \<Longrightarrow> running t = running s \<Longrightarrow> opened t = opened s
   \<Longrightarrow> next_capture t = next_capture s \<Longrightarrow> app_inv t = app_inv s"
  by (simp add: app_inv_def split: option.split)

lemma app_inv_init: "app_inv (app_init fs)"
  by (simp add: app_inv_def app_init_def)

lemma app_inv_start:
  assumes "app_inv s"
  shows "app_inv (app_step v s (Start_Click r))"
proof (cases "reference_encoding s")
  case None
  with assms show ?thesis by simp
next
  case (Some k)
  let ?s1 = "s\<lparr>video_capture := Some (next_capture s), opened := insert (next_capture s) (opened s),
                next_capture := Suc (next_capture s), running := True\<rparr>"
  have "app_inv ?s1" using assms by (auto simp: app_inv_def split: option.splits)
  moreover have "app_inv (fst (update_frame v ?s1 r)) = app_inv ?s1"
    by (rule app_inv_cong) (simp_all add: update_frame_keeps)
  ultimately show ?thesis using Some by (simp add: recognize_live_eq)
qed

lemma app_inv_stop: "app_inv s \<Longrightarrow> app_inv (stop_camera s)"
  by (auto simp: app_inv_def stop_camera_eq split: option.splits)

lemma app_inv_passive:
  assumes "e = Capture_Click reads \<or> e = Upload_Click p \<or> e = Timer r"
  shows "app_inv (app_step v s e) = app_inv s"
  using app_step_session_fields [OF assms, where v = v and s = s] by (intro app_inv_cong) auto

lemma app_inv_step:
  assumes "app_inv s"
  shows "app_inv (app_step v s e)"
proof (cases e)
  case (Capture_Click reads)
  then show ?thesis using assms app_inv_passive [of e reads "[]" None] by simp
next
  case (Upload_Click p)
  then show ?thesis using assms app_inv_passive [of e "[]" p None] by simp
next
  case (Start_Click r)
  then show ?thesis using app_inv_start [OF assms] by simp
next
  case Stop_Click
  then show ?thesis using app_inv_stop [OF assms] by simp
next
  case (Timer r)
  then show ?thesis using assms app_inv_passive [of e "[]" "[]" r] by simp
qed

lemma reachable_app_inv: "reachable v fs s \<Longrightarrow> app_inv s"
  by (induction rule: reachable.induct) (auto intro: app_inv_init app_inv_step)

lemma timer_run_stopped:
  "\<not> running s \<Longrightarrow>
   timer_run v s rs = (s\<lparr>after_queue := after_queue s - length rs\<rparr>,
                       replicate (min (length rs) (after_queue s)) Skipped)"
proof (induction rs arbitrary: s)
  case Nil
  then show ?case by simp
next
  case (Cons r rs)
  show ?case
  proof (cases "after_queue s = 0")
    case True
    with Cons show ?thesis by (simp add: timer_fire_def)
  next
    case False
    then obtain n where n: "after_queue s = Suc n" by (cases "after_queue s") auto
    have "timer_fire v s r = Some (s\<lparr>after_queue := n\<rparr>, Skipped)"
      using Cons.prems n by (simp add: timer_fire_def)
    moreover have "timer_run v (s\<lparr>after_queue := n\<rparr>) rs =
        (s\<lparr>after_queue := n - length rs\<rparr>, replicate (min (length rs) n) Skipped)"
      using Cons.IH [of "s\<lparr>after_queue := n\<rparr>"] Cons.prems by simp
    ultimately show ?thesis using n by simp
  qed
qed

lemma app_step_keeps_other_handle:
  assumes "app_inv s" and "h \<in> opened s" and "video_capture s \<noteq> Some h"
  shows "h \<in> opened (app_step v s e) \<and> video_capture (app_step v s e) \<noteq> Some h"
proof (cases e)
  case (Start_Click r)
  show ?thesis
  proof (cases "reference_encoding s")
    case None
    with assms Start_Click show ?thesis by simp
  next
    case (Some k)
    from assms have "h < next_capture s" by (simp add: app_inv_def)
    with assms Some Start_Click show ?thesis by (simp add: recognize_live_eq update_frame_keeps)
  qed
next
  case Stop_Click
  with assms show ?thesis by (auto simp: stop_camera_eq split: option.splits)
qed (use assms app_step_session_fields in \<open>metis+\<close>)

lemma app_run_timers_idle:
  "after_queue s = 0 \<Longrightarrow> app_run v s (map Timer rs) = s"
  by (induction rs) auto

lemma app_run_keeps_other_handle:
  assumes "reachable v fs s" and "h \<in> opened s" and "video_capture s \<noteq> Some h"
  shows "h \<in> opened (app_run v s es)"
  using assms
proof (induction es arbitrary: s)
  case Nil
  then show ?case by simp
next
  case (Cons e es)
  have inv: "app_inv s" using Cons.prems(1) by (rule reachable_app_inv)
  have "h \<in> opened (app_step v s e) \<and> video_capture (app_step v s e) \<noteq> Some h"
    by (rule app_step_keeps_other_handle [OF inv Cons.prems(2,3)])
  moreover have "reachable v fs (app_step v s e)" using Cons.prems(1) by (rule reachable.step)
  ultimately show ?case using Cons.IH by simp
qed

text \<open>Evaluation of concrete runs over \<^const>\<open>test_vision\<close>.\<close>

lemmas run_simps = upload_reference_photo_def capture_reference_photo_def load_image_file_def
  encode_face_def preprocess_image_def test_vision_def recognize_live_def cycle_simps app_init_def
  same_person_eq stop_camera_eq

section \<open>Properties of the application\<close>

text \<open>C7: In every reachable state a running session holds an open camera: the global
  capture is a handle that was opened and not released.\<close>

theorem running_session_owns_open_camera:
  assumes "reachable v fs s" and "running s"
  shows "\<exists>h. video_capture s = Some h \<and> h \<in> opened s"
proof -
  from assms(1) have "app_inv s" by (rule reachable_app_inv)
  with assms(2) show ?thesis by (auto simp: app_inv_def split: option.splits)
qed

theorem running_session_owns_open_camera_witness:
  "reachable (test_vision (\<lambda>_. [[1]]) (\<lambda>_. 0)) [''p.jpg'' \<mapsto> 0]
     (app_run (test_vision (\<lambda>_. [[1]]) (\<lambda>_. 0)) (app_init [''p.jpg'' \<mapsto> 0])
        [Upload_Click ''p.jpg'', Start_Click (Some 0)])
   \<and> video_capture (app_run (test_vision (\<lambda>_. [[1]]) (\<lambda>_. 0)) (app_init [''p.jpg'' \<mapsto> 0])
        [Upload_Click ''p.jpg'', Start_Click (Some 0)]) = Some 0
   \<and> 0 \<in> opened (app_run (test_vision (\<lambda>_. [[1]]) (\<lambda>_. 0)) (app_init [''p.jpg'' \<mapsto> 0])
        [Upload_Click ''p.jpg'', Start_Click (Some 0)])"
proof -
  let ?v = "test_vision (\<lambda>_. [[1]]) (\<lambda>_. 0)"
  let ?s = "app_run ?v (app_init [''p.jpg'' \<mapsto> (0::nat)]) [Upload_Click ''p.jpg'', Start_Click (Some 0)]"
  have h1: "reachable ?v [''p.jpg'' \<mapsto> 0] ?s" by (rule reachable_app_run [OF reachable.init])
  have h2: "running ?s" by (simp add: run_simps)
  obtain h where "video_capture ?s = Some h" and "h \<in> opened ?s"
    using running_session_owns_open_camera [OF h1 h2] by blast
  moreover have "video_capture ?s = Some 0" by (simp add: run_simps)
  ultimately show ?thesis using h1 by simp
qed

text \<open>C10: Stop: once \<open>stop_camera\<close> has run, the callbacks still queued fire and
  return at once: they decide nothing, never touch the label or the counters, do not
  reschedule, and the queue drains.\<close>

theorem stop_drains_loop:
  "timer_run v (stop_camera s) rs =
     ((stop_camera s)\<lparr>after_queue := after_queue s - length rs\<rparr>,
      replicate (min (length rs) (after_queue s)) Skipped)"
proof -
  have "\<not> running (stop_camera s)" by (simp add: stop_camera_eq split: option.split)
  moreover have "after_queue (stop_camera s) = after_queue s"
    by (simp add: stop_camera_eq split: option.split)
  ultimately show ?thesis by (simp add: timer_run_stopped)
qed

text \<open>C16: A failed camera read ends the loop while the session still counts as
  running: the callback returns without rescheduling, and from then on timer events do
  nothing until the user presses Stop or Start.\<close>

theorem failed_read_stalls_running_session:
  assumes "running s" and "after_queue s = 1"
  shows "running (app_step v s (Timer None)) \<and> after_queue (app_step v s (Timer None)) = 0
       \<and> app_run v (app_step v s (Timer None)) (map Timer rs) = app_step v s (Timer None)"
proof -
  have t: "app_step v s (Timer None) = s\<lparr>after_queue := 0\<rparr>" using assms by simp
  then show ?thesis using assms by (simp add: app_run_timers_idle)
qed

theorem failed_read_stalls_running_session_witness:
  "running ((app_init Map.empty)\<lparr>running := True, after_queue := 1\<rparr> :: nat app)
   \<and> after_queue ((app_init Map.empty)\<lparr>running := True, after_queue := 1\<rparr> :: nat app) = 1
   \<and> running (app_step (test_vision (\<lambda>_. []) (\<lambda>_. 1))
        ((app_init Map.empty)\<lparr>running := True, after_queue := 1\<rparr>) (Timer None))"
proof -
  let ?s = "(app_init Map.empty)\<lparr>running := True, after_queue := 1\<rparr> :: nat app"
  have h1: "running ?s" by simp
  have h2: "after_queue ?s = 1" by simp
  show ?thesis
    using failed_read_stalls_running_session [OF h1 h2, of "test_vision (\<lambda>_. []) (\<lambda>_. 1)" "[]"] h1 h2
    by simp
qed

text \<open>C18: A camera orphaned by a second Start is never released: no later event of the
  application removes it from the open handles.\<close>

theorem orphaned_camera_never_released:
  assumes "reachable v fs s" and "h \<in> opened s" and "video_capture s \<noteq> Some h"
  shows "h \<in> opened (app_run v s es)"
  using assms by (rule app_run_keeps_other_handle)

theorem orphaned_camera_never_released_witness:
  "reachable (test_vision (\<lambda>_. [[1]]) (\<lambda>_. 1)) [''p.jpg'' \<mapsto> 0]
     (app_run (test_vision (\<lambda>_. [[1]]) (\<lambda>_. 1)) (app_init [''p.jpg'' \<mapsto> 0])
        [Upload_Click ''p.jpg'', Start_Click (Some 0), Start_Click (Some 0)])
   \<and> 0 \<in> opened (app_run (test_vision (\<lambda>_. [[1]]) (\<lambda>_. 1)) (app_init [''p.jpg'' \<mapsto> 0])
        [Upload_Click ''p.jpg'', Start_Click (Some 0), Start_Click (Some 0), Stop_Click, Stop_Click])"
proof -
  let ?v = "test_vision (\<lambda>_. [[1]]) (\<lambda>_. 1)"
  let ?s = "app_run ?v (app_init [''p.jpg'' \<mapsto> (0::nat)])
              [Upload_Click ''p.jpg'', Start_Click (Some 0), Start_Click (Some 0)]"
  have h1: "reachable ?v [''p.jpg'' \<mapsto> 0] ?s" by (rule reachable_app_run [OF reachable.init])
  have h2: "0 \<in> opened ?s" by (simp add: run_simps)
  have h3: "video_capture ?s \<noteq> Some 0" by (simp add: run_simps)
  have "0 \<in> opened (app_run ?v ?s [Stop_Click, Stop_Click])"
    by (rule orphaned_camera_never_released [OF h1 h2 h3])
  then show ?thesis using h1
    by (simp only: app_run_append [symmetric] append.simps)
qed

text \<open>C21: Enrolling and starting, composed (spec scenario B for any images): after an
  upload whose image encodes to \<open>k\<close> and a Start whose first frame shows one person with
  a face encoded as \<open>e\<close>, the session runs with reference \<open>k\<close> and the label is
  \<open>Same Person\<close> exactly when the distance from \<open>k\<close> to \<open>e\<close> is below 0.6.\<close>

theorem enroll_then_start_decides_first_frame:
  assumes "p \<noteq> []" and "files s p = Some raw" and "encode_face v (cvt_bgr2rgb v raw) = Some k"
    and "q = preprocess_image v (resize_half v (cvt_bgr2rgb v frame))"
    and "refresh_person_count v frame (frame_counter s) (current_person_count s) = 1"
    and "face_locations v q = loc # locs" and "face_encodings v q (loc # locs) = e # es"
    and "length e = length k"
  shows "running (app_run v s [Upload_Click p, Start_Click (Some frame)])
       \<and> reference_encoding (app_run v s [Upload_Click p, Start_Click (Some frame)]) = Some k
       \<and> result_label (app_run v s [Upload_Click p, Start_Click (Some frame)]) =
           (if euclid k e < 0.6 then (''Same Person'', ''green'') else (''Different Person'', ''red''))"
proof -
  let ?u = "fst (upload_reference_photo v s p)"
  let ?w = "?u\<lparr>video_capture := Some (next_capture ?u), opened := insert (next_capture ?u) (opened ?u),
              next_capture := Suc (next_capture ?u), running := True\<rparr>"
  have u: "reference_encoding ?u = Some k" and uc: "frame_counter ?u = frame_counter s"
    and up: "current_person_count ?u = current_person_count s"
    using assms(1-3) upload_session_fields [of v s p] by (simp_all add: upload_Some_eq)
  have sp: "same_person (Some k) e = Inr (euclid k e < 0.6)"
    using assms(8) by (simp add: same_person_Some)
  have fs: "face_stage v (Some k) q 1 = Inr (if euclid k e < 0.6 then Same_Person else Different_Person,
              Some (scale_box loc))"
    using face_stage_one [OF assms(6,7), of "Some k"] sp by simp
  have "update_frame v ?w (Some frame) =
          (?w\<lparr>current_person_count := 1,
               result_label := verdict_label (if euclid k e < 0.6 then Same_Person else Different_Person),
               frame_counter := Suc (frame_counter ?w), after_queue := Suc (after_queue ?w)\<rparr>,
           Decided (frame_counter ?w mod 5 = 0)
             (if euclid k e < 0.6 then Same_Person else Different_Person) (Some (scale_box loc)))"
    using u uc up assms(4,5) fs by (simp add: update_frame_read Let_def)
  then show ?thesis using u by (simp add: recognize_live_eq)
qed

theorem enroll_then_start_decides_first_frame_witness:
  "result_label (app_run (test_vision (\<lambda>f. if f = 0 then [[0]] else [[0.5]]) (\<lambda>_. 1))
      (app_init [''me.jpg'' \<mapsto> 0]) [Upload_Click ''me.jpg'', Start_Click (Some 1)])
   = (''Same Person'', ''green'')"
proof -
  let ?v = "test_vision (\<lambda>f. if f = 0 then [[0]] else [[0.5]]) (\<lambda>_. 1)"
  let ?s = "app_init [''me.jpg'' \<mapsto> 0] :: nat app"
  have h3: "encode_face ?v (cvt_bgr2rgb ?v 0) = Some [0]"
    by (simp add: encode_face_def test_vision_def preprocess_image_def)
  have h5: "refresh_person_count ?v 1 (frame_counter ?s) (current_person_count ?s) = 1"
    by (simp add: refresh_person_count_def detection_interval_def yolo_count_def test_vision_def
        app_init_def)
  have h6: "face_locations ?v (preprocess_image ?v (resize_half ?v (cvt_bgr2rgb ?v 1))) = [(0, 0, 0, 0)]"
    by (simp add: test_vision_def preprocess_image_def)
  have h7: "face_encodings ?v (preprocess_image ?v (resize_half ?v (cvt_bgr2rgb ?v 1))) [(0, 0, 0, 0)]
            = [[0.5]]"
    by (simp add: test_vision_def preprocess_image_def)
  have d: "euclid [0] [0.5] < 0.6" by (subst euclid_less_iff) (simp_all add: power_divide)
  show ?thesis
    using enroll_then_start_decides_first_frame [OF _ _ h3 refl h5 h6 h7] d
    by (simp add: app_init_def)
qed

end
