(* ===== verification/Typing.thy ===== *)
theory Typing
  imports Session
begin

text \<open>
  Type soundness of the frame loop of \<^verbatim>\<open>src/FinalProject.py\<close>, in the manner of a
  preservation and a progress theorem. Python does not check that the reference encoding
  and the live encodings have the same length, nor that dlib returns no more encodings
  than locations; \<open>vision_typed k\<close> is that contract of the collaborators (every
  encoding has length \<open>k\<close>, 128 for dlib's model) and \<open>app_typed k\<close> the typing of the
  state (a stored reference has length \<open>k\<close>). Every event keeps the state typed
  (preservation); a typed running cycle with a reference never raises (progress); so the
  chain of timer callbacks decides on every frame and stays scheduled (liveness).
\<close>

section \<open>Definitions\<close>

definition vision_typed :: "nat \<Rightarrow> 'f vision \<Rightarrow> bool" where
  "vision_typed k v \<longleftrightarrow>
     (\<forall>p locs. length (face_encodings v p locs) \<le> length locs
               \<and> (\<forall>e \<in> set (face_encodings v p locs). length e = k))"

definition app_typed :: "nat \<Rightarrow> 'f app \<Rightarrow> bool" where
  "app_typed k s \<longleftrightarrow> (case reference_encoding s of None \<Rightarrow> True | Some e \<Rightarrow> length e = k)"

section \<open>Preservation\<close>

lemma vision_typedD:
  assumes "vision_typed k v"
  shows "length (face_encodings v p locs) \<le> length locs"
    and "e \<in> set (face_encodings v p locs) \<Longrightarrow> length e = k"
  using assms by (auto simp: vision_typed_def)

lemma encode_face_typed:
  assumes "vision_typed k v" and "encode_face v img = Some e"
  shows "length e = k"
proof -
  from assms(2) obtain rest where
    "face_encodings v (preprocess_image v img) (face_locations v (preprocess_image v img)) = e # rest"
    by (auto simp: encode_face_def Let_def split: list.splits)
  then show ?thesis by (metis vision_typedD(2) [OF assms(1)] list.set_intros(1))
qed

lemma app_typed_encode:
  "vision_typed k v \<Longrightarrow> app_typed k (s\<lparr>reference_encoding := encode_face v img, result_label := l\<rparr>)"
  by (auto simp: app_typed_def dest: encode_face_typed split: option.split)

lemma app_typed_upload:
  "vision_typed k v \<Longrightarrow> app_typed k s \<Longrightarrow> app_typed k (fst (upload_reference_photo v s p))"
  by (auto simp: upload_reference_photo_def Let_def app_typed_encode split: sum.split)

lemma app_typed_capture:
  assumes "vision_typed k v" and "app_typed k s"
  shows "app_typed k (fst (capture_reference_photo v s reads))"
  using assms
  by (auto simp: capture_reference_photo_def Let_def app_typed_encode split: option.split sum.split)
     (auto simp: app_typed_def imwrite_def)

lemma app_typed_update_frame:
  "app_typed k s \<Longrightarrow> app_typed k (fst (update_frame v s r))"
  using update_frame_keeps [of v s r] by (simp add: app_typed_def)

lemma app_typed_step:
  assumes "vision_typed k v" and "app_typed k s"
  shows "app_typed k (app_step v s e)"
proof (cases e)
  case (Start_Click r)
  let ?t = "s\<lparr>video_capture := Some (next_capture s), opened := insert (next_capture s) (opened s),
              next_capture := Suc (next_capture s), running := True\<rparr>"
  have "app_typed k ?t" using assms(2) by (simp add: app_typed_def)
  then have "app_typed k (fst (update_frame v ?t r))" by (rule app_typed_update_frame)
  with Start_Click assms(2) show ?thesis
    by (cases "reference_encoding s") (simp_all add: recognize_live_eq)
next
  case Stop_Click
  then show ?thesis using assms(2) by (auto simp: app_typed_def stop_camera_eq split: option.split)
next
  case (Timer r)
  then show ?thesis using assms(2) app_typed_update_frame [of k "s\<lparr>after_queue := after_queue s - 1\<rparr>"]
    by (simp add: app_typed_def)
qed (simp_all add: assms app_typed_upload app_typed_capture)

lemma reachable_app_typed:
  assumes "reachable v fs s" and "vision_typed k v"
  shows "app_typed k s"
  using assms(1)
proof (induction rule: reachable.induct)
  case init
  show ?case by (simp add: app_typed_def app_init_def)
next
  case (step s e)
  from assms(2) step.IH show ?case by (rule app_typed_step)
qed

section \<open>Progress\<close>

lemma face_stage_typed:
  assumes "vision_typed k v" and "length r = k"
  shows "\<exists>res. face_stage v (Some r) p c = Inr res"
proof (cases "c = 1")
  case True
  let ?locs = "face_locations v p"
  show ?thesis
  proof (cases "face_encodings v p ?locs")
    case Nil
    with True show ?thesis by (simp add: face_stage_def)
  next
    case (Cons enc rest)
    have "length enc = k" using vision_typedD(2) [OF assms(1), of enc p ?locs] Cons by simp
    then have sp: "same_person (Some r) enc = Inr (euclid r enc < 0.6)"
      using assms(2) by (simp add: same_person_Some)
    have "?locs \<noteq> []" using vision_typedD(1) [OF assms(1), of p ?locs] Cons by auto
    then obtain loc locs' where "?locs = loc # locs'" by (cases ?locs) auto
    with True Cons sp show ?thesis by (simp add: face_stage_def)
  qed
qed (auto simp: face_stage_def)

lemma update_frame_progress:
  assumes "vision_typed k v" and "app_typed k s" and "running s"
    and "reference_encoding s \<noteq> None"
  obtains b vd box where "snd (update_frame v s (Some frame)) = Decided b vd box"
proof -
  obtain r where r: "reference_encoding s = Some r" using assms(4) by blast
  with assms(2) have "length r = k" by (simp add: app_typed_def)
  with assms(1) obtain vd box where fs:
    "face_stage v (Some r) (preprocess_image v (resize_half v (cvt_bgr2rgb v frame)))
        (refresh_person_count v frame (frame_counter s) (current_person_count s)) = Inr (vd, box)"
    using face_stage_typed by fastforce
  have "snd (update_frame v s (Some frame)) = Decided (frame_counter s mod 5 = 0) vd box"
    using assms(3) r fs by (simp add: update_frame_read Let_def)
  then show ?thesis by (rule that)
qed

section \<open>Liveness of the frame loop\<close>

lemma update_frame_Decided_queue:
  "update_frame v s r = (t, Decided b vd box) \<Longrightarrow> after_queue t = Suc (after_queue s)"
  by (auto simp: update_frame_def Let_def split: if_splits option.splits sum.splits prod.splits)

lemma timer_fire_decides:
  assumes "vision_typed k v" and "app_typed k s" and "running s"
    and "reference_encoding s \<noteq> None" and "0 < after_queue s"
  obtains t b vd box where "timer_fire v s (Some frame) = Some (t, Decided b vd box)"
    and "app_typed k t" and "running t" and "reference_encoding t = reference_encoding s"
    and "after_queue t = after_queue s"
proof -
  let ?s1 = "s\<lparr>after_queue := after_queue s - 1\<rparr>"
  have typed1: "app_typed k ?s1" using assms(2) by (simp add: app_typed_def)
  have run1: "running ?s1" and ref1: "reference_encoding ?s1 \<noteq> None" using assms(3,4) by simp_all
  obtain b vd box where d: "snd (update_frame v ?s1 (Some frame)) = Decided b vd box"
    by (rule update_frame_progress [OF assms(1) typed1 run1 ref1])
  define t where "t = fst (update_frame v ?s1 (Some frame))"
  have uf: "update_frame v ?s1 (Some frame) = (t, Decided b vd box)"
    using d by (simp add: t_def prod_eq_iff)
  have q: "after_queue t = after_queue s"
    using update_frame_Decided_queue [OF uf] assms(5) by simp
  have "app_typed k t" and "running t" and "reference_encoding t = reference_encoding s"
    using update_frame_keeps [of v ?s1 "Some frame"] assms(2,3)
    by (simp_all add: t_def app_typed_def)
  moreover have "timer_fire v s (Some frame) = Some (t, Decided b vd box)"
    using uf assms(5) by (simp add: timer_fire_def)
  ultimately show ?thesis using that q by blast
qed

lemma timer_run_live:
  assumes "vision_typed k v" and "app_typed k s" and "running s"
    and "reference_encoding s \<noteq> None" and "0 < after_queue s"
    and "timer_run v s (map Some frames) = (u, cs)"
  shows "length (decided_flags cs) = length frames \<and> running u \<and> after_queue u = after_queue s"
  using assms(2-6)
proof (induction frames arbitrary: s u cs)
  case Nil
  then show ?case by simp
next
  case (Cons frame frames)
  obtain t b vd box where fire: "timer_fire v s (Some frame) = Some (t, Decided b vd box)"
    and t: "app_typed k t" "running t" "reference_encoding t = reference_encoding s"
      "after_queue t = after_queue s"
    by (rule timer_fire_decides [OF assms(1) Cons.prems(1-4)])
  obtain u' cs' where run: "timer_run v t (map Some frames) = (u', cs')" by fastforce
  from Cons.prems(5) fire run have u: "u = u'" and cs: "cs = Decided b vd box # cs'" by simp_all
  have "length (decided_flags cs') = length frames \<and> running u' \<and> after_queue u' = after_queue t"
    using Cons.IH [OF t(1,2) _ _ run] t(3,4) Cons.prems(3,4) by simp
  with u cs t(4) show ?case by simp
qed

lemma vision_typed_test:
  "(\<forall>f. \<forall>e \<in> set (enc f). length e = k) \<Longrightarrow> vision_typed k (test_vision enc persons)"
  by (auto simp: vision_typed_def test_vision_def dest: in_set_takeD)

section \<open>Properties\<close>

text \<open>C8: Type preservation. In every state the application reaches, a stored reference
  encoding has the length of the encodings the face model produces: capture and upload
  store only what \<open>face_encodings\<close> returned, and no other handler touches it.\<close>

theorem reachable_reference_typed:
  assumes "reachable v fs s" and "vision_typed k v" and "reference_encoding s = Some e"
  shows "length e = k"
  using reachable_app_typed [OF assms(1,2)] assms(3) by (simp add: app_typed_def)

theorem reachable_reference_typed_witness:
  "length [1, 2 :: real] = 2
   \<and> reference_encoding (app_step (test_vision (\<lambda>_. [[1, 2]]) (\<lambda>_. 1))
        (app_init [''p.jpg'' \<mapsto> 0]) (Upload_Click ''p.jpg'')) = Some [1, 2]"
proof -
  let ?v = "test_vision (\<lambda>_. [[1, 2]]) (\<lambda>_. 1)"
  let ?s = "app_step ?v (app_init [''p.jpg'' \<mapsto> 0]) (Upload_Click ''p.jpg'')"
  have r: "reachable ?v [''p.jpg'' \<mapsto> 0] ?s" by (intro reachable.step reachable.init)
  have ty: "vision_typed 2 ?v" by (rule vision_typed_test) simp
  have e: "reference_encoding ?s = Some [1, 2]" by (simp add: run_simps)
  from reachable_reference_typed [OF r ty e] e show ?thesis by simp
qed

text \<open>C9: Liveness of the frame loop. From a reachable running state with a reference and
  a pending callback, every timer event that reads a frame decides a cycle, and the loop
  stays running with a callback pending: the face model being typed, no cycle raises and
  the chain of \<open>after\<close> callbacks never ends while the camera delivers frames.\<close>

theorem frame_loop_live:
  assumes "reachable v fs s" and "vision_typed k v" and "running s"
    and "reference_encoding s \<noteq> None" and "0 < after_queue s"
    and "timer_run v s (map Some frames) = (u, cs)"
  shows "length (decided_flags cs) = length frames \<and> running u \<and> 0 < after_queue u"
  using timer_run_live [OF assms(2) reachable_app_typed [OF assms(1,2)] assms(3-6)] assms(5)
  by simp

theorem frame_loop_live_witness:
  "length (decided_flags (snd (timer_run (test_vision (\<lambda>_. [[1]]) (\<lambda>_. 1))
      (app_run (test_vision (\<lambda>_. [[1]]) (\<lambda>_. 1)) (app_init [''p.jpg'' \<mapsto> 0])
         [Upload_Click ''p.jpg'', Start_Click (Some 0)])
      [Some 0, Some 1]))) = 2
   \<and> running (fst (timer_run (test_vision (\<lambda>_. [[1]]) (\<lambda>_. 1))
      (app_run (test_vision (\<lambda>_. [[1]]) (\<lambda>_. 1)) (app_init [''p.jpg'' \<mapsto> 0])
         [Upload_Click ''p.jpg'', Start_Click (Some 0)])
      [Some 0, Some 1]))"
proof -
  let ?v = "test_vision (\<lambda>_. [[1]]) (\<lambda>_. 1)"
  let ?s = "app_run ?v (app_init [''p.jpg'' \<mapsto> 0]) [Upload_Click ''p.jpg'', Start_Click (Some 0)]"
  let ?run = "timer_run ?v ?s (map Some [0, 1])"
  have r: "reachable ?v [''p.jpg'' \<mapsto> 0] ?s"
    by (rule reachable_app_run) (rule reachable.init)
  have ty: "vision_typed 1 ?v" by (rule vision_typed_test) simp
  have run: "running ?s" and ref: "reference_encoding ?s \<noteq> None" and q: "0 < after_queue ?s"
    by (simp_all add: run_simps)
  have h: "?run = (fst ?run, snd ?run)" by simp
  from frame_loop_live [OF r ty run ref q h] show ?thesis by simp
qed

text \<open>C17: Start does not check whether a session is already running: pressing it again
  with a typed face model opens a second camera while the first stays open, and starts a
  second frame loop: the new first cycle decides and queues its own callback beside the
  callbacks of the loop already running.\<close>

theorem start_while_running_opens_second_camera:
  assumes "reachable v fs s" and "vision_typed k v" and "running s"
    and "reference_encoding s \<noteq> None"
  obtains h where "video_capture s = Some h" and "h \<in> opened (app_step v s (Start_Click (Some frame)))"
    and "video_capture (app_step v s (Start_Click (Some frame))) = Some (next_capture s)"
    and "next_capture s \<in> opened (app_step v s (Start_Click (Some frame)))" and "h \<noteq> next_capture s"
    and "running (app_step v s (Start_Click (Some frame)))"
    and "after_queue (app_step v s (Start_Click (Some frame))) = Suc (after_queue s)"
proof -
  from reachable_app_inv [OF assms(1)] assms(3) obtain h where h: "video_capture s = Some h" "h \<in> opened s"
    and nx: "Suc h = next_capture s" by (auto simp: app_inv_def split: option.splits)
  from assms(4) obtain r where r: "reference_encoding s = Some r" by auto
  let ?w = "s\<lparr>video_capture := Some (next_capture s), opened := insert (next_capture s) (opened s),
              next_capture := Suc (next_capture s), running := True\<rparr>"
  have typed: "app_typed k ?w" using reachable_app_typed [OF assms(1,2)] by (simp add: app_typed_def)
  have run: "running ?w" and ref: "reference_encoding ?w \<noteq> None" using r by simp_all
  obtain b vd box where d: "snd (update_frame v ?w (Some frame)) = Decided b vd box"
    by (rule update_frame_progress [OF assms(2) typed run ref])
  have "update_frame v ?w (Some frame) = (fst (update_frame v ?w (Some frame)), Decided b vd box)"
    using d by (simp add: prod_eq_iff)
  then have q: "after_queue (fst (update_frame v ?w (Some frame))) = Suc (after_queue s)"
    by (simp add: update_frame_Decided_queue)
  show ?thesis
    using that [OF h(1)] h nx r q by (simp add: recognize_live_eq update_frame_keeps)
qed

theorem start_while_running_opens_second_camera_witness:
  "opened (app_step (test_vision (\<lambda>_. [[1]]) (\<lambda>_. 1))
       (app_run (test_vision (\<lambda>_. [[1]]) (\<lambda>_. 1)) (app_init [''p.jpg'' \<mapsto> 0])
          [Upload_Click ''p.jpg'', Start_Click (Some 0)]) (Start_Click (Some 0))) = {0, 1}
   \<and> after_queue (app_step (test_vision (\<lambda>_. [[1]]) (\<lambda>_. 1))
       (app_run (test_vision (\<lambda>_. [[1]]) (\<lambda>_. 1)) (app_init [''p.jpg'' \<mapsto> 0])
          [Upload_Click ''p.jpg'', Start_Click (Some 0)]) (Start_Click (Some 0))) = 2"
proof -
  let ?v = "test_vision (\<lambda>_. [[1]]) (\<lambda>_. 1)"
  let ?s = "app_run ?v (app_init [''p.jpg'' \<mapsto> (0::nat)]) [Upload_Click ''p.jpg'', Start_Click (Some 0)]"
  let ?t = "app_step ?v ?s (Start_Click (Some 0))"
  have h1: "reachable ?v [''p.jpg'' \<mapsto> 0] ?s" by (rule reachable_app_run [OF reachable.init])
  have ty: "vision_typed 1 ?v" by (rule vision_typed_test) simp
  have h2: "running ?s" and h3: "reference_encoding ?s \<noteq> None" and q: "after_queue ?s = 1"
    by (simp_all add: run_simps)
  obtain h where "h \<in> opened ?t" and "after_queue ?t = Suc (after_queue ?s)"
    by (rule start_while_running_opens_second_camera [OF h1 ty h2 h3]) blast
  with q have "after_queue ?t = 2" by simp
  moreover have "opened ?t = {0, 1}" by (simp add: run_simps insert_commute)
  ultimately show ?thesis by simp
qed

end
