(* ===== verification/Variant_Basic.thy ===== *)
theory Variant_Basic
  imports Typing
begin

text \<open>
  \<^verbatim>\<open>src/FaceMatching.py\<close>, the variant without a person detector. Its globals,
  \<open>preprocess_image\<close>, \<open>encode_face\<close>, capture, upload and \<open>stop_camera\<close> are the
  code of \<^verbatim>\<open>src/FinalProject.py\<close> modelled in the other theories (lines 9--90 and
  146--151 here); \<open>recognize_live\<close> (lines 82--90) starts this variant's
  \<open>update_frame\<close> (lines 92--144). That frame step shrinks the frame, converts it to
  RGB, judges every face found with the same matching expression, draws each face, and
  then shows the label of the last face judged (\<open>''''\<close> when there is none). There is no
  frame counter and no person count. A \<open>None\<close> reference raises at the first face,
  before the label is set and the loop rescheduled.
\<close>

section \<open>Definitions\<close>

text \<open>What one call did; a decided call lists the verdict and box of every face drawn.\<close>

datatype basic_cycle =
    Basic_Skipped | Basic_No_Frame | Basic_Crashed exn
  | Basic_Decided verdict "(verdict \<times> loc) list"

text \<open>The \<open>for\<close> loop over \<open>zip(face_locations, face_encodings)\<close>.\<close>

fun judge_faces :: "encoding option \<Rightarrow> (loc \<times> encoding) list \<Rightarrow> exn + (verdict \<times> loc) list" where
  "judge_faces ref [] = Inr []"
| "judge_faces ref ((loc, enc) # faces) =
     (case same_person ref enc of
        Inl e \<Rightarrow> Inl e
      | Inr m \<Rightarrow>
          (case judge_faces ref faces of
             Inl e \<Rightarrow> Inl e
           | Inr judged \<Rightarrow> Inr ((if m then Same_Person else Different_Person, scale_box loc) # judged)))"

text \<open>The label after the loop: the last face's, or the initial \<open>''''\<close>.\<close>

definition last_verdict :: "(verdict \<times> loc) list \<Rightarrow> verdict" where
  "last_verdict judged = (if judged = [] then Blank else fst (last judged))"

definition update_frame_basic :: "'f vision \<Rightarrow> 'f app \<Rightarrow> 'f option \<Rightarrow> 'f app \<times> basic_cycle" where
  "update_frame_basic v s read =
     (if \<not> running s then (s, Basic_Skipped)
      else case read of
        None \<Rightarrow> (s, Basic_No_Frame)
      | Some frame \<Rightarrow>
          (let small_frame = resize_half v frame;
               rgb_small_frame = cvt_bgr2rgb v small_frame;
               processed = preprocess_image v rgb_small_frame;
               locs = face_locations v processed;
               encs = face_encodings v processed locs
           in case judge_faces (reference_encoding s) (zip locs encs) of
                Inl e \<Rightarrow> (s, Basic_Crashed e)
              | Inr judged \<Rightarrow>
                  (s\<lparr>result_label := verdict_label (last_verdict judged),
                     after_queue := Suc (after_queue s)\<rparr>,
                   Basic_Decided (last_verdict judged) judged)))"

definition recognize_live_basic :: "'f vision \<Rightarrow> 'f app \<Rightarrow> 'f option \<Rightarrow> 'f app \<times> outcome" where
  "recognize_live_basic v s read =
     (if reference_encoding s = None
      then (s, Shown_Error ''Please set a reference photo first!'')
      else
        (let h = next_capture s;
             s = s\<lparr>video_capture := Some h, opened := insert h (opened s),
                   next_capture := Suc h, running := True\<rparr>
         in case update_frame_basic v s read of
              (s', Basic_Crashed e) \<Rightarrow> (s', Raised e)
            | (s', _) \<Rightarrow> (s', Returned)))"

text \<open>The four buttons (lines 153--169) and the \<open>after\<close> callback (line 144) of this
  variant, over the events of \<open>Session\<close>: capture, upload and stop are the shared
  handlers, start and the timer run this variant's frame step.\<close>

fun basic_step :: "'f vision \<Rightarrow> 'f app \<Rightarrow> 'f event \<Rightarrow> 'f app" where
  "basic_step v s (Capture_Click reads) = fst (capture_reference_photo v s reads)"
| "basic_step v s (Upload_Click p) = fst (upload_reference_photo v s p)"
| "basic_step v s (Start_Click r) = fst (recognize_live_basic v s r)"
| "basic_step v s Stop_Click = stop_camera s"
| "basic_step v s (Timer r) =
     (if after_queue s = 0 then s
      else fst (update_frame_basic v (s\<lparr>after_queue := after_queue s - 1\<rparr>) r))"

inductive basic_reachable :: "'f vision \<Rightarrow> (path \<Rightarrow> 'f option) \<Rightarrow> 'f app \<Rightarrow> bool" for v fs where
  basic_init: "basic_reachable v fs (app_init fs)"
| basic_step: "basic_reachable v fs s \<Longrightarrow> basic_reachable v fs (basic_step v s e)"

section \<open>Lemmas\<close>

lemma judge_faces_Some:
  "list_all (\<lambda>(l, e). length e = length k) faces \<Longrightarrow>
   judge_faces (Some k) faces =
     Inr (map (\<lambda>(l, e). (if euclid k e < 0.6 then Same_Person else Different_Person, scale_box l)) faces)"
  by (induction "Some k" faces rule: judge_faces.induct) (auto simp: same_person_Some)

lemma judge_faces_None: "faces \<noteq> [] \<Longrightarrow> judge_faces None faces = Inl TypeError"
  by (cases faces) (auto simp: same_person_eq)

lemma update_frame_basic_read:
  assumes "running s"
  shows "update_frame_basic v s (Some frame) =
    (let p = preprocess_image v (cvt_bgr2rgb v (resize_half v frame));
         locs = face_locations v p
     in case judge_faces (reference_encoding s) (zip locs (face_encodings v p locs)) of
          Inl e \<Rightarrow> (s, Basic_Crashed e)
        | Inr judged \<Rightarrow>
            (s\<lparr>result_label := verdict_label (last_verdict judged), after_queue := Suc (after_queue s)\<rparr>,
             Basic_Decided (last_verdict judged) judged))"
  using assms by (simp add: update_frame_basic_def Let_def)

lemma update_frame_basic_keeps:
  "reference_encoding (fst (update_frame_basic v s r)) = reference_encoding s
   \<and> running (fst (update_frame_basic v s r)) = running s"
  by (auto simp: update_frame_basic_def Let_def split: option.split sum.split)

lemma recognize_live_basic_fst:
  "fst (recognize_live_basic v s r) =
     (if reference_encoding s = None then s
      else fst (update_frame_basic v (s\<lparr>video_capture := Some (next_capture s),
                 opened := insert (next_capture s) (opened s),
                 next_capture := Suc (next_capture s), running := True\<rparr>) r))"
  by (simp add: recognize_live_basic_def Let_def split: prod.split basic_cycle.split)

lemma recognize_live_basic_ref:
  "reference_encoding (fst (recognize_live_basic v s r)) = reference_encoding s"
  by (simp add: recognize_live_basic_fst update_frame_basic_keeps)

lemma app_typed_basic_step:
  assumes "vision_typed k v" and "app_typed k s"
  shows "app_typed k (basic_step v s e)"
proof (cases e)
  case (Start_Click r)
  then show ?thesis using assms(2) recognize_live_basic_ref [of v s r] by (simp add: app_typed_def)
next
  case Stop_Click
  then show ?thesis using assms(2) by (auto simp: app_typed_def stop_camera_eq split: option.split)
next
  case (Timer r)
  then show ?thesis
    using assms(2) update_frame_basic_keeps [of v "s\<lparr>after_queue := after_queue s - 1\<rparr>" r]
    by (simp add: app_typed_def)
qed (simp_all add: assms app_typed_upload app_typed_capture)

lemma basic_reachable_typed:
  assumes "basic_reachable v fs s" and "vision_typed k v"
  shows "app_typed k s"
  using assms(1)
proof (induction rule: basic_reachable.induct)
  case basic_init
  show ?case by (simp add: app_typed_def app_init_def)
next
  case (basic_step s e)
  from assms(2) basic_step.IH show ?case by (rule app_typed_basic_step)
qed

lemma zip_encodings_typed:
  assumes "vision_typed k v" and "length r = k"
  shows "list_all (\<lambda>(l, e). length e = length r) (zip locs (face_encodings v p locs))"
  using vision_typedD(2) [OF assms(1)] assms(2)
  by (auto simp: list_all_iff dest: set_zip_rightD)

section \<open>Properties\<close>

text \<open>C25: The label this variant shows is the verdict of the last face of the frame: every
  face found (the pairs of \<open>zip(face_locations, face_encodings)\<close>) is judged against
  the reference and drawn, and the label is \<open>Same Person\<close> exactly when the last face's
  distance is below 0.6, whatever the faces before it; with no face the label is blank.
  So an enrolled face shown last beside a stranger gives \<open>Same Person\<close>.\<close>

theorem basic_label_is_last_face:
  assumes "running s" and "reference_encoding s = Some k"
    and "p = preprocess_image v (cvt_bgr2rgb v (resize_half v frame))"
    and "faces = zip (face_locations v p) (face_encodings v p (face_locations v p))"
    and "list_all (\<lambda>(l, e). length e = length k) faces"
  shows "update_frame_basic v s (Some frame) =
           (let judged = map (\<lambda>(l, e).
                  (if euclid k e < 0.6 then Same_Person else Different_Person, scale_box l)) faces;
                vd = (if faces = [] then Blank
                      else if euclid k (snd (last faces)) < 0.6 then Same_Person else Different_Person)
            in (s\<lparr>result_label := verdict_label vd, after_queue := Suc (after_queue s)\<rparr>,
                Basic_Decided vd judged))"
proof -
  have j: "judge_faces (Some k) faces = Inr (map (\<lambda>(l, e).
             (if euclid k e < 0.6 then Same_Person else Different_Person, scale_box l)) faces)"
    using assms(5) by (rule judge_faces_Some)
  have "last_verdict (map (\<lambda>(l, e).
             (if euclid k e < 0.6 then Same_Person else Different_Person, scale_box l)) faces)
        = (if faces = [] then Blank
           else if euclid k (snd (last faces)) < 0.6 then Same_Person else Different_Person)"
    by (cases "last faces") (simp add: last_verdict_def last_map)
  with j show ?thesis using assms(1-4) by (simp add: update_frame_basic_read Let_def)
qed

theorem basic_label_is_last_face_witness:
  "result_label (fst (update_frame_basic (test_vision (\<lambda>_. [[5], [0]]) (\<lambda>_. 2))
     ((app_init Map.empty)\<lparr>reference_encoding := Some [0], running := True\<rparr>) (Some 0)))
   = (''Same Person'', ''green'')
   \<and> \<not> euclid [0] [5] < 0.6"
proof -
  let ?v = "test_vision (\<lambda>_. [[5], [0]]) (\<lambda>_. 2)"
  let ?s = "(app_init Map.empty)\<lparr>reference_encoding := Some [0], running := True\<rparr> :: nat app"
  let ?p = "preprocess_image ?v (cvt_bgr2rgb ?v (resize_half ?v 0))"
  let ?faces = "zip (face_locations ?v ?p) (face_encodings ?v ?p (face_locations ?v ?p))"
  have f: "?faces = [((0, 0, 0, 0), [5]), ((0, 0, 0, 0), [0])]"
    by (simp add: test_vision_def preprocess_image_def)
  have l: "list_all (\<lambda>(l, e). length e = length [0::real]) ?faces" by (simp add: f)
  have d: "\<not> euclid [0] [5] < 0.6" by (simp add: euclid_def)
  show ?thesis
    using basic_label_is_last_face [OF _ _ refl refl l, of ?s] f d by (simp add: Let_def)
qed

text \<open>C26: On a frame with one face and one person both variants agree: the label of
  \<^verbatim>\<open>FaceMatching.py\<close> is the label of the gated \<^verbatim>\<open>FinalProject.py\<close>, given that
  shrinking and the BGR-to-RGB conversion commute (the two files apply them in opposite
  orders).\<close>

theorem basic_agrees_with_gated_on_single_face:
  assumes "running s"
    and "resize_half v (cvt_bgr2rgb v frame) = cvt_bgr2rgb v (resize_half v frame)"
    and "refresh_person_count v frame (frame_counter s) (current_person_count s) = 1"
    and "p = preprocess_image v (resize_half v (cvt_bgr2rgb v frame))"
    and "face_locations v p = [loc]" and "face_encodings v p [loc] = [enc]"
    and "reference_encoding s = Some k" and "length k = length enc"
  shows "result_label (fst (update_frame_basic v s (Some frame)))
         = result_label (fst (update_frame v s (Some frame)))"
proof -
  let ?vd = "if euclid k enc < 0.6 then Same_Person else Different_Person"
  have j: "judge_faces (Some k) [(loc, enc)] = Inr [(?vd, scale_box loc)]"
    using assms(8) by (simp add: same_person_Some)
  have basic: "result_label (fst (update_frame_basic v s (Some frame))) = verdict_label ?vd"
    using assms(1,2,4-7) j by (simp add: update_frame_basic_read last_verdict_def Let_def)
  have sp: "same_person (Some k) enc = Inr (euclid k enc < 0.6)"
    using assms(8) by (rule same_person_Some)
  have "face_stage v (Some k) p 1 = Inr (?vd, Some (scale_box loc))"
    using face_stage_one [OF assms(5,6), of "Some k"] sp by simp
  then have "result_label (fst (update_frame v s (Some frame))) = verdict_label ?vd"
    using assms(1,3,4,7) by (simp add: update_frame_read Let_def)
  with basic show ?thesis by simp
qed

theorem basic_agrees_with_gated_on_single_face_witness:
  "result_label (fst (update_frame_basic (test_vision (\<lambda>_. [[0.5]]) (\<lambda>_. 1))
       ((app_init Map.empty)\<lparr>reference_encoding := Some [0], running := True\<rparr>) (Some 0)))
   = (''Same Person'', ''green'')
   \<and> result_label (fst (update_frame (test_vision (\<lambda>_. [[0.5]]) (\<lambda>_. 1))
       ((app_init Map.empty)\<lparr>reference_encoding := Some [0], running := True\<rparr>) (Some 0)))
   = (''Same Person'', ''green'')"
proof -
  let ?v = "test_vision (\<lambda>_. [[0.5]]) (\<lambda>_. 1)"
  let ?s = "(app_init Map.empty)\<lparr>reference_encoding := Some [0], running := True\<rparr> :: nat app"
  let ?p = "preprocess_image ?v (resize_half ?v (cvt_bgr2rgb ?v 0))"
  have h1: "running ?s" by simp
  have h2: "resize_half ?v (cvt_bgr2rgb ?v 0) = cvt_bgr2rgb ?v (resize_half ?v 0)"
    by (simp add: test_vision_def)
  have h3: "refresh_person_count ?v 0 (frame_counter ?s) (current_person_count ?s) = 1"
    by (simp add: refresh_person_count_def detection_interval_def yolo_count_def test_vision_def
        app_init_def)
  have h5: "face_locations ?v ?p = [(0, 0, 0, 0)]" by (simp add: test_vision_def preprocess_image_def)
  have h6: "face_encodings ?v ?p [(0, 0, 0, 0)] = [[0.5]]" by (simp add: test_vision_def preprocess_image_def)
  have h7: "reference_encoding ?s = Some [0]" by simp
  have h8: "length [0::real] = length [0.5::real]" by simp
  have d: "euclid [0] [0.5] < 0.6" by (subst euclid_less_iff) (simp_all add: power_divide)
  have g: "result_label (fst (update_frame ?v ?s (Some 0))) = (''Same Person'', ''green'')"
    using d by (simp add: cycle_simps test_vision_def app_init_def preprocess_image_def same_person_eq)
  show ?thesis
    using basic_agrees_with_gated_on_single_face [OF h1 h2 h3 refl h5 h6 h7 h8] g by simp
qed

text \<open>C27: With no face in the frame this variant blanks the label (empty text, black)
  instead of reporting that no face was detected.\<close>

theorem basic_no_face_blank_label:
  assumes "running s"
    and "face_locations v (preprocess_image v (cvt_bgr2rgb v (resize_half v frame))) = []"
  shows "update_frame_basic v s (Some frame) =
           (s\<lparr>result_label := ('''', ''black''), after_queue := Suc (after_queue s)\<rparr>,
            Basic_Decided Blank [])"
  using assms by (simp add: update_frame_basic_read last_verdict_def Let_def)

theorem basic_no_face_blank_label_witness:
  "update_frame_basic (test_vision (\<lambda>_. []) (\<lambda>_. 0)) ((app_init Map.empty)\<lparr>running := True\<rparr>) (Some 0)
   = ((app_init Map.empty)\<lparr>running := True, result_label := ('''', ''black''), after_queue := 1\<rparr>,
      Basic_Decided Blank [])"
proof -
  let ?v = "test_vision (\<lambda>_. []) (\<lambda>_. 0)"
  let ?s = "(app_init Map.empty)\<lparr>running := True\<rparr> :: nat app"
  have h1: "running ?s" by simp
  have h2: "face_locations ?v (preprocess_image ?v (cvt_bgr2rgb ?v (resize_half ?v 0))) = []"
    by (simp add: test_vision_def preprocess_image_def)
  show ?thesis using basic_no_face_blank_label [OF h1 h2] by (simp add: app_init_def)
qed

text \<open>C28: A reference cleared by an upload without a face does not stop a running session
  of this variant at once: while the frames show no face the loop keeps going with a
  blank label, and the first frame with a face raises \<open>TypeError\<close> in
  \<open>face_distance\<close>, with no label update and no reschedule.\<close>

theorem basic_cleared_reference_fails_at_first_face:
  assumes "running s" and "reference_encoding s = None"
  shows "update_frame_basic v s (Some frame) =
    (let p = preprocess_image v (cvt_bgr2rgb v (resize_half v frame));
         locs = face_locations v p
     in if zip locs (face_encodings v p locs) = []
        then (s\<lparr>result_label := ('''', ''black''), after_queue := Suc (after_queue s)\<rparr>,
              Basic_Decided Blank [])
        else (s, Basic_Crashed TypeError))"
  using assms by (simp add: update_frame_basic_read judge_faces_None last_verdict_def Let_def)

theorem basic_cleared_reference_fails_at_first_face_witness:
  "let v = test_vision (\<lambda>f. if f = 0 then [] else [[1]]) (\<lambda>_. 0);
       s = basic_step v (basic_step v (basic_step v (app_init [''me.jpg'' \<mapsto> 1, ''wall.jpg'' \<mapsto> 0])
             (Upload_Click ''me.jpg'')) (Start_Click (Some 0))) (Upload_Click ''wall.jpg'')
   in running s \<and> reference_encoding s = None
      \<and> snd (update_frame_basic v s (Some 0)) = Basic_Decided Blank []
      \<and> snd (update_frame_basic v s (Some 1)) = Basic_Crashed TypeError"
proof -
  let ?v = "test_vision (\<lambda>f. if f = 0 then [] else [[1]]) (\<lambda>_. 0)"
  let ?s = "basic_step ?v (basic_step ?v (basic_step ?v (app_init [''me.jpg'' \<mapsto> 1, ''wall.jpg'' \<mapsto> 0])
             (Upload_Click ''me.jpg'')) (Start_Click (Some 0))) (Upload_Click ''wall.jpg'')"
  have run: "running ?s" and ref: "reference_encoding ?s = None"
    by (simp_all add: run_simps recognize_live_basic_def update_frame_basic_def last_verdict_def)
  have "snd (update_frame_basic ?v ?s (Some 0)) = Basic_Decided Blank []
        \<and> snd (update_frame_basic ?v ?s (Some 1)) = Basic_Crashed TypeError"
    using basic_cleared_reference_fails_at_first_face [OF run ref, of ?v 0]
      basic_cleared_reference_fails_at_first_face [OF run ref, of ?v 1]
    by (simp add: test_vision_def preprocess_image_def)
  with run ref show ?thesis by (simp only: Let_def)
qed

text \<open>C29: Progress of this variant's frame step. In every state its event loop reaches,
  a running cycle with a reference decides whenever the face model is typed: every face
  is judged and none raises, however many faces the frame shows.\<close>

theorem basic_reachable_cycle_decides:
  assumes "basic_reachable v fs s" and "vision_typed k v" and "running s"
    and "reference_encoding s \<noteq> None"
  shows "\<exists>vd judged. update_frame_basic v s (Some frame) =
           (s\<lparr>result_label := verdict_label vd, after_queue := Suc (after_queue s)\<rparr>,
            Basic_Decided vd judged)"
proof -
  obtain r where r: "reference_encoding s = Some r" using assms(4) by blast
  with basic_reachable_typed [OF assms(1,2)] have len: "length r = k" by (simp add: app_typed_def)
  let ?p = "preprocess_image v (cvt_bgr2rgb v (resize_half v frame))"
  let ?faces = "zip (face_locations v ?p) (face_encodings v ?p (face_locations v ?p))"
  have "judge_faces (Some r) ?faces = Inr (map (\<lambda>(l, e).
          (if euclid r e < 0.6 then Same_Person else Different_Person, scale_box l)) ?faces)"
    by (rule judge_faces_Some) (rule zip_encodings_typed [OF assms(2) len])
  with assms(3) r show ?thesis by (simp add: update_frame_basic_read Let_def)
qed

theorem basic_reachable_cycle_decides_witness:
  "snd (update_frame_basic (test_vision (\<lambda>_. [[1], [2]]) (\<lambda>_. 2))
      (basic_step (test_vision (\<lambda>_. [[1], [2]]) (\<lambda>_. 2))
         (basic_step (test_vision (\<lambda>_. [[1], [2]]) (\<lambda>_. 2)) (app_init [''me.jpg'' \<mapsto> 0])
            (Upload_Click ''me.jpg'')) (Start_Click (Some 0)))
      (Some 0)) = Basic_Decided Different_Person [(Same_Person, (0, 0, 0, 0)), (Different_Person, (0, 0, 0, 0))]"
proof -
  let ?v = "test_vision (\<lambda>_. [[1], [2]]) (\<lambda>_. 2)"
  let ?s = "basic_step ?v (basic_step ?v (app_init [''me.jpg'' \<mapsto> 0]) (Upload_Click ''me.jpg''))
              (Start_Click (Some 0))"
  have r: "basic_reachable ?v [''me.jpg'' \<mapsto> 0] ?s"
    by (intro basic_reachable.basic_step basic_reachable.basic_init)
  have ty: "vision_typed 1 ?v" by (rule vision_typed_test) simp
  have d: "\<not> euclid [1] [2] < 0.6" by (simp add: euclid_def)
  have run: "running ?s" and ref: "reference_encoding ?s = Some [1]"
    using d by (simp_all add: run_simps recognize_live_basic_def update_frame_basic_def last_verdict_def)
  obtain vd judged where
    "update_frame_basic ?v ?s (Some 0) =
       (?s\<lparr>result_label := verdict_label vd, after_queue := Suc (after_queue ?s)\<rparr>, Basic_Decided vd judged)"
    using basic_reachable_cycle_decides [OF r ty run] ref by blast
  moreover have "snd (update_frame_basic ?v ?s (Some 0))
      = Basic_Decided Different_Person [(Same_Person, (0, 0, 0, 0)), (Different_Person, (0, 0, 0, 0))]"
    using run ref d by (simp add: update_frame_basic_read test_vision_def preprocess_image_def
        same_person_eq last_verdict_def euclid_sym Let_def)
  ultimately show ?thesis by simp
qed

end
