(* ===== verification/Variant_DeepFace.thy ===== *)
theory Variant_DeepFace
  imports Session
begin

text \<open>
  \<^verbatim>\<open>src/FaceMatching-UsingDeepface.py\<close>: no encodings are kept. The globals are a flag
  \<open>reference_set\<close>, the capture, \<open>running\<close> and the label (lines 9--26). Capture and
  upload only put an image at \<open>reference.jpg\<close> and set the flag (lines 28--68); each
  frame is written to \<open>live_frame.jpg\<close> and \<open>DeepFace.verify\<close> compares the two
  files (lines 80--126). Every exception of \<open>verify\<close> (a missing or unreadable file, a
  model failure) is caught and shown as \<open>Error in recognition\<close>, and the loop goes on.
  \<open>DeepFace.verify\<close> is a collaborator \<open>verify\<close> from two images to \<open>exn + bool\<close>;
  reading a path that holds no image raises before it is called. The record's fields carry
  a \<open>df_\<close> prefix where the name is taken by the state of \<^verbatim>\<open>FinalProject.py\<close>.
\<close>

section \<open>Definitions\<close>

record 'f df_app =
  reference_set :: bool
  df_video_capture :: "nat option"
  df_running :: bool
  df_result_label :: label
  df_files :: "path \<Rightarrow> 'f option"
  df_after_queue :: nat
  df_opened :: "nat set"
  df_next_capture :: nat

definition df_app_init :: "(path \<Rightarrow> 'f option) \<Rightarrow> 'f df_app" where
  "df_app_init fs =
     \<lparr>reference_set = False, df_video_capture = None, df_running = False,
      df_result_label = ('''', ''black''), df_files = fs, df_after_queue = 0,
      df_opened = {}, df_next_capture = 0\<rparr>"

definition temp_path :: path where
  "temp_path = ''live_frame.jpg''"

definition df_imwrite :: "'f vision \<Rightarrow> path \<Rightarrow> 'f \<Rightarrow> 'f df_app \<Rightarrow> 'f df_app" where
  "df_imwrite v p img s = s\<lparr>df_files := (df_files s)(p \<mapsto> jpeg_codec v img)\<rparr>"

definition capture_reference_photo_df ::
  "'f vision \<Rightarrow> 'f df_app \<Rightarrow> ('f option \<times> int) list \<Rightarrow> 'f df_app \<times> outcome" where
  "capture_reference_photo_df v s reads =
     (case capture_loop reads of
        None \<Rightarrow> (s, Blocked)
      | Some saved \<Rightarrow>
          (let s = (case saved of None \<Rightarrow> s | Some frame \<Rightarrow> df_imwrite v reference_image_path frame s)
           in if df_files s reference_image_path \<noteq> None
              then (s\<lparr>reference_set := True,
                      df_result_label := (''Reference photo captured'', ''green'')\<rparr>, Returned)
              else (s\<lparr>df_result_label := (''Failed to capture reference photo'', ''red'')\<rparr>, Returned)))"

text \<open>\<open>cv2.imread\<close> gives \<open>None\<close> for a path with no readable image.\<close>

definition upload_reference_photo_df :: "'f vision \<Rightarrow> 'f df_app \<Rightarrow> path \<Rightarrow> 'f df_app \<times> outcome" where
  "upload_reference_photo_df v s file_path =
     (if file_path = [] then (s, Returned)
      else case df_files s file_path of
        None \<Rightarrow> (s\<lparr>df_result_label := (''Invalid image selected'', ''red'')\<rparr>, Returned)
      | Some img \<Rightarrow>
          ((df_imwrite v reference_image_path img s)\<lparr>reference_set := True,
              df_result_label := (''Reference photo uploaded'', ''green'')\<rparr>, Returned))"

datatype df_verdict = DF_Same | DF_Different | DF_Error

fun df_verdict_label :: "df_verdict \<Rightarrow> label" where
  "df_verdict_label DF_Same = (''Same Person'', ''green'')"
| "df_verdict_label DF_Different = (''Different Person'', ''red'')"
| "df_verdict_label DF_Error = (''Error in recognition'', ''orange'')"

datatype df_cycle = DF_Skipped | DF_No_Frame | DF_Decided df_verdict

text \<open>\<open>DeepFace.verify(img1_path=reference_image_path, img2_path=temp_path, ...)\<close>.\<close>

definition verify_files ::
  "('f \<Rightarrow> 'f \<Rightarrow> exn + bool) \<Rightarrow> 'f df_app \<Rightarrow> exn + bool" where
  "verify_files verify s =
     (case (df_files s reference_image_path, df_files s temp_path) of
        (Some img1, Some img2) \<Rightarrow> verify img1 img2
      | _ \<Rightarrow> Inl ValueError)"

definition update_frame_df ::
  "'f vision \<Rightarrow> ('f \<Rightarrow> 'f \<Rightarrow> exn + bool) \<Rightarrow> 'f df_app \<Rightarrow> 'f option \<Rightarrow> 'f df_app \<times> df_cycle" where
  "update_frame_df v verify s read =
     (if \<not> df_running s then (s, DF_Skipped)
      else case read of
        None \<Rightarrow> (s, DF_No_Frame)
      | Some frame \<Rightarrow>
          (let s = df_imwrite v temp_path frame s;
               vd = (case verify_files verify s of
                       Inr True \<Rightarrow> DF_Same
                     | Inr False \<Rightarrow> DF_Different
                     | Inl _ \<Rightarrow> DF_Error)
           in (s\<lparr>df_result_label := df_verdict_label vd, df_after_queue := Suc (df_after_queue s)\<rparr>,
               DF_Decided vd)))"

definition recognize_live_df ::
  "'f vision \<Rightarrow> ('f \<Rightarrow> 'f \<Rightarrow> exn + bool) \<Rightarrow> 'f df_app \<Rightarrow> 'f option \<Rightarrow> 'f df_app \<times> outcome" where
  "recognize_live_df v verify s read =
     (if \<not> reference_set s
      then (s, Shown_Error ''Please set a reference photo first!'')
      else
        (let h = df_next_capture s;
             s = s\<lparr>df_video_capture := Some h, df_opened := insert h (df_opened s),
                   df_next_capture := Suc h, df_running := True\<rparr>
         in (fst (update_frame_df v verify s read), Returned)))"

definition stop_camera_df :: "'f df_app \<Rightarrow> 'f df_app" where
  "stop_camera_df s =
     (let s = s\<lparr>df_running := False\<rparr>
      in case df_video_capture s of
           None \<Rightarrow> s
         | Some h \<Rightarrow> s\<lparr>df_opened := df_opened s - {h},
                       df_result_label := (''Camera stopped'', ''black'')\<rparr>)"

text \<open>One pending \<open>update_frame\<close> callback (\<open>video_label.after(10, update_frame)\<close>,
  line 126) fires with the given camera read.\<close>

definition df_timer_fire ::
  "'f vision \<Rightarrow> ('f \<Rightarrow> 'f \<Rightarrow> exn + bool) \<Rightarrow> 'f df_app \<Rightarrow> 'f option \<Rightarrow> ('f df_app \<times> df_cycle) option" where
  "df_timer_fire v verify s r =
     (if df_after_queue s = 0 then None
      else Some (update_frame_df v verify (s\<lparr>df_after_queue := df_after_queue s - 1\<rparr>) r))"

fun df_step :: "'f vision \<Rightarrow> ('f \<Rightarrow> 'f \<Rightarrow> exn + bool) \<Rightarrow> 'f df_app \<Rightarrow> 'f event \<Rightarrow> 'f df_app" where
  "df_step v verify s (Capture_Click reads) = fst (capture_reference_photo_df v s reads)"
| "df_step v verify s (Upload_Click p) = fst (upload_reference_photo_df v s p)"
| "df_step v verify s (Start_Click r) = fst (recognize_live_df v verify s r)"
| "df_step v verify s Stop_Click = stop_camera_df s"
| "df_step v verify s (Timer r) =
     (case df_timer_fire v verify s r of None \<Rightarrow> s | Some (t, _) \<Rightarrow> t)"

inductive df_reachable ::
  "'f vision \<Rightarrow> ('f \<Rightarrow> 'f \<Rightarrow> exn + bool) \<Rightarrow> (path \<Rightarrow> 'f option) \<Rightarrow> 'f df_app \<Rightarrow> bool"
  for v verify fs where
  df_init: "df_reachable v verify fs (df_app_init fs)"
| df_step: "df_reachable v verify fs s \<Longrightarrow> df_reachable v verify fs (df_step v verify s e)"

text \<open>A run of timer events only, with the cycles the fired callbacks report.\<close>

fun df_timer_run ::
  "'f vision \<Rightarrow> ('f \<Rightarrow> 'f \<Rightarrow> exn + bool) \<Rightarrow> 'f df_app \<Rightarrow> 'f option list \<Rightarrow> 'f df_app \<times> df_cycle list" where
  "df_timer_run v verify s [] = (s, [])"
| "df_timer_run v verify s (r # rs) =
     (case df_timer_fire v verify s r of
        None \<Rightarrow> df_timer_run v verify s rs
      | Some (t, c) \<Rightarrow> (let (u, cs) = df_timer_run v verify t rs in (u, c # cs)))"

text \<open>The invariant of the DeepFace application: the flag is backed by the file, and the
  loop only runs with the flag set.\<close>

definition df_inv :: "'f df_app \<Rightarrow> bool" where
  "df_inv s \<longleftrightarrow> (reference_set s \<longrightarrow> df_files s reference_image_path \<noteq> None)
                \<and> (df_running s \<longrightarrow> reference_set s)"

section \<open>Lemmas\<close>

lemma df_step_Timer:
  "df_step v verify s (Timer r) =
     (if df_after_queue s = 0 then s
      else fst (update_frame_df v verify (s\<lparr>df_after_queue := df_after_queue s - 1\<rparr>) r))"
  by (simp add: df_timer_fire_def split: prod.split)

declare df_step.simps(5) [simp del] df_step_Timer [simp]

lemma update_frame_df_read:
  assumes "df_running s"
  shows "update_frame_df v verify s (Some frame) =
    (let t = df_imwrite v temp_path frame s;
         vd = (case verify_files verify t of Inr True \<Rightarrow> DF_Same | Inr False \<Rightarrow> DF_Different
               | Inl _ \<Rightarrow> DF_Error)
     in (t\<lparr>df_result_label := df_verdict_label vd, df_after_queue := Suc (df_after_queue s)\<rparr>,
         DF_Decided vd))"
  using assms by (simp add: update_frame_df_def df_imwrite_def Let_def)

lemma df_imwrite_files: "df_files (df_imwrite v p img s) = (df_files s)(p \<mapsto> jpeg_codec v img)"
  by (simp add: df_imwrite_def)

lemma reference_image_path_ne_temp [simp]: "reference_image_path \<noteq> temp_path"
  by (simp add: reference_image_path_def temp_path_def)

lemma df_timer_fire_decides:
  assumes "df_running s" and "0 < df_after_queue s"
  obtains t vd where "df_timer_fire v verify s (Some frame) = Some (t, DF_Decided vd)"
    and "df_running t" and "df_after_queue t = df_after_queue s"
  using assms that
  by (auto simp: df_timer_fire_def update_frame_df_read Let_def df_imwrite_def)

lemma df_timer_run_live:
  assumes "df_running s" and "0 < df_after_queue s"
    and "df_timer_run v verify s (map Some frames) = (u, cs)"
  shows "(\<exists>vds. cs = map DF_Decided vds) \<and> length cs = length frames
         \<and> df_running u \<and> df_after_queue u = df_after_queue s"
  using assms
proof (induction frames arbitrary: s u cs)
  case Nil
  then show ?case by simp
next
  case (Cons frame frames)
  obtain t vd where fire: "df_timer_fire v verify s (Some frame) = Some (t, DF_Decided vd)"
    and t: "df_running t" "df_after_queue t = df_after_queue s"
    by (rule df_timer_fire_decides [OF Cons.prems(1,2)])
  obtain u' cs' where run: "df_timer_run v verify t (map Some frames) = (u', cs')" by fastforce
  from Cons.prems(3) fire run have u: "u = u'" and cs: "cs = DF_Decided vd # cs'" by simp_all
  have ih: "(\<exists>vds. cs' = map DF_Decided vds) \<and> length cs' = length frames
            \<and> df_running u' \<and> df_after_queue u' = df_after_queue t"
    using Cons.IH [OF t(1) _ run] t(2) Cons.prems(2) by simp
  then obtain vds where "cs' = map DF_Decided vds" by blast
  then have "cs = map DF_Decided (vd # vds)" using cs by simp
  then have "\<exists>vds. cs = map DF_Decided vds" by blast
  with ih u cs t(2) show ?case by simp
qed

lemma df_imwrite_keeps [simp]:
  "reference_set (df_imwrite v p img s) = reference_set s"
  "df_running (df_imwrite v p img s) = df_running s"
  "df_after_queue (df_imwrite v p img s) = df_after_queue s"
  by (simp_all add: df_imwrite_def)

lemma update_frame_df_inv:
  "df_inv s \<Longrightarrow> df_inv (fst (update_frame_df v verify s r))"
  by (auto simp: update_frame_df_def df_inv_def df_imwrite_files Let_def split: option.splits sum.splits)

lemma df_inv_step:
  assumes "df_inv s" shows "df_inv (df_step v verify s e)"
proof (cases e)
  case (Capture_Click reads)
  then show ?thesis using assms
    by (auto simp: capture_reference_photo_df_def df_inv_def df_imwrite_files Let_def
             split: option.splits)
next
  case (Upload_Click p)
  then show ?thesis using assms
    by (auto simp: upload_reference_photo_df_def df_inv_def df_imwrite_files split: option.splits)
next
  case (Start_Click r)
  let ?h = "df_next_capture s"
  let ?t = "s\<lparr>df_video_capture := Some ?h, df_opened := insert ?h (df_opened s),
              df_next_capture := Suc ?h, df_running := True\<rparr>"
  have "reference_set s \<Longrightarrow> df_inv ?t" using assms by (simp add: df_inv_def)
  then show ?thesis using Start_Click assms update_frame_df_inv [of ?t]
    by (auto simp: recognize_live_df_def Let_def)
next
  case Stop_Click
  then show ?thesis using assms
    by (auto simp: stop_camera_df_def df_inv_def Let_def split: option.splits)
next
  case (Timer r)
  then show ?thesis using assms update_frame_df_inv [of "s\<lparr>df_after_queue := df_after_queue s - 1\<rparr>"]
    by (auto simp: df_inv_def)
qed

lemma df_reachable_inv: "df_reachable v verify fs s \<Longrightarrow> df_inv s"
proof (induction rule: df_reachable.induct)
  case df_init
  show ?case by (simp add: df_app_init_def df_inv_def)
next
  case (df_step s e)
  from df_step.IH show ?case by (rule df_inv_step)
qed

lemma verify_files_after_write:
  "verify_files verify (df_imwrite v temp_path frame s) =
     (case df_files s reference_image_path of
        None \<Rightarrow> Inl ValueError
      | Some img \<Rightarrow> verify img (jpeg_codec v frame))"
  by (simp add: verify_files_def df_imwrite_files split: option.split)

lemma verify_files_label_update [simp]:
  "verify_files verify (s\<lparr>df_result_label := l, df_after_queue := n\<rparr>) = verify_files verify s"
  by (simp add: verify_files_def)

text \<open>C30: every cycle of the DeepFace loop that reads a frame decides and reschedules itself,
  whatever \<open>DeepFace.verify\<close> does; the verdict is \<open>Error in recognition\<close> exactly when
  the comparison raises.\<close>

theorem df_cycle_always_reschedules:
  assumes "df_running s"
  shows "\<exists>t vd. update_frame_df v verify s (Some frame) = (t, DF_Decided vd)
           \<and> df_after_queue t = Suc (df_after_queue s)
           \<and> df_result_label t = df_verdict_label vd
           \<and> (vd = DF_Error \<longleftrightarrow> isl (verify_files verify t))"
  using assms
  by (auto simp: update_frame_df_read Let_def split: sum.split bool.split)

theorem df_cycle_always_reschedules_witness:
  "\<exists>t vd. update_frame_df (test_vision (\<lambda>_. []) (\<lambda>_. 0)) (\<lambda>_ _. Inl ValueError)
             ((df_app_init (\<lambda>_. None))\<lparr>df_running := True\<rparr>) (Some (1::nat)) = (t, DF_Decided vd)
     \<and> df_after_queue t = Suc 0 \<and> df_result_label t = df_verdict_label vd
     \<and> (vd = DF_Error \<longleftrightarrow> isl (verify_files (\<lambda>_ _. Inl ValueError) t))"
  using df_cycle_always_reschedules [of "(df_app_init (\<lambda>_. None))\<lparr>df_running := True\<rparr>"
      "test_vision (\<lambda>_. []) (\<lambda>_. 0)" "\<lambda>_ _. Inl ValueError" "1::nat"]
  by (simp add: df_app_init_def)

text \<open>C32: when \<open>reference.jpg\<close> is missing, a running DeepFace cycle shows
  \<open>Error in recognition\<close> in orange and the loop goes on.\<close>

theorem df_missing_reference_reports_error:
  assumes "df_running s" and "df_files s reference_image_path = None"
    and "update_frame_df v verify s (Some frame) = (t, c)"
  shows "c = DF_Decided DF_Error \<and> df_result_label t = (''Error in recognition'', ''orange'')
         \<and> df_after_queue t = Suc (df_after_queue s)"
  using assms by (auto simp: update_frame_df_read verify_files_after_write Let_def)

theorem df_missing_reference_reports_error_witness:
  "update_frame_df (test_vision (\<lambda>_. []) (\<lambda>_. 0)) (\<lambda>_ _. Inr True)
      ((df_app_init (\<lambda>_. None))\<lparr>df_running := True\<rparr>) (Some (1::nat))
   = (fst (update_frame_df (test_vision (\<lambda>_. []) (\<lambda>_. 0)) (\<lambda>_ _. Inr True)
      ((df_app_init (\<lambda>_. None))\<lparr>df_running := True\<rparr>) (Some (1::nat))), DF_Decided DF_Error)
   \<and> df_result_label (fst (update_frame_df (test_vision (\<lambda>_. []) (\<lambda>_. 0)) (\<lambda>_ _. Inr True)
      ((df_app_init (\<lambda>_. None))\<lparr>df_running := True\<rparr>) (Some (1::nat))))
     = (''Error in recognition'', ''orange'')"
proof -
  let ?s = "(df_app_init (\<lambda>_. None) :: nat df_app)\<lparr>df_running := True\<rparr>"
  let ?u = "update_frame_df (test_vision (\<lambda>_. []) (\<lambda>_. 0)) (\<lambda>_ _. Inr True) ?s (Some 1)"
  have "snd ?u = DF_Decided DF_Error \<and> df_result_label (fst ?u) = (''Error in recognition'', ''orange'')
        \<and> df_after_queue (fst ?u) = Suc (df_after_queue ?s)"
    by (rule df_missing_reference_reports_error [of ?s _ _ _ "fst ?u" "snd ?u"])
       (simp_all add: df_app_init_def)
  then show ?thesis by (metis prod.collapse)
qed

lemmas df_run_simps = df_app_init_def upload_reference_photo_df_def recognize_live_df_def
  update_frame_df_def capture_reference_photo_df_def stop_camera_df_def df_imwrite_def
  verify_files_def reference_image_path_def temp_path_def test_vision_def Let_def

text \<open>C33: in every state the DeepFace application reaches, the flag \<open>reference_set\<close> is
  backed by an image at \<open>reference.jpg\<close>, and a running loop has its flag set.\<close>

theorem df_reference_flag_backed_by_file:
  assumes "df_reachable v verify fs s"
  shows "(reference_set s \<longrightarrow> df_files s reference_image_path \<noteq> None)
         \<and> (df_running s \<longrightarrow> reference_set s)"
  using df_reachable_inv [OF assms] by (simp add: df_inv_def)

theorem df_reference_flag_backed_by_file_witness:
  "reference_set (df_step (test_vision (\<lambda>_. []) (\<lambda>_. 0)) (\<lambda>a b. Inr (a = b))
      (df_step (test_vision (\<lambda>_. []) (\<lambda>_. 0)) (\<lambda>a b. Inr (a = b))
         (df_app_init (\<lambda>p. if p = ''a.jpg'' then Some (7::nat) else None)) (Upload_Click ''a.jpg''))
      (Start_Click (Some 7)))
   \<and> df_files (df_step (test_vision (\<lambda>_. []) (\<lambda>_. 0)) (\<lambda>a b. Inr (a = b))
      (df_step (test_vision (\<lambda>_. []) (\<lambda>_. 0)) (\<lambda>a b. Inr (a = b))
         (df_app_init (\<lambda>p. if p = ''a.jpg'' then Some (7::nat) else None)) (Upload_Click ''a.jpg''))
      (Start_Click (Some 7))) reference_image_path = Some 7"
proof -
  let ?v = "test_vision (\<lambda>_. []) (\<lambda>_. 0) :: nat vision"
  let ?vf = "\<lambda>a b. Inr (a = b) :: exn + bool"
  let ?fs = "\<lambda>p. if p = ''a.jpg'' then Some (7::nat) else None"
  let ?s = "df_step ?v ?vf (df_step ?v ?vf (df_app_init ?fs) (Upload_Click ''a.jpg'')) (Start_Click (Some 7))"
  have r: "df_reachable ?v ?vf ?fs ?s"
    by (intro df_reachable.df_step df_reachable.df_init)
  have "df_running ?s \<and> df_files ?s reference_image_path = Some 7"
    by (simp add: df_run_simps)
  with df_reference_flag_backed_by_file [OF r] show ?thesis by simp
qed

text \<open>C34: in a reachable running state, the verdict of a cycle is \<open>DeepFace.verify\<close>
  applied to the stored reference image and the frame as written to \<open>live_frame.jpg\<close>:
  \<open>Error in recognition\<close> comes only from the comparison itself.\<close>

theorem df_verdict_is_verify_on_stored_reference:
  assumes "df_reachable v verify fs s" and "df_running s"
  shows "\<exists>img. df_files s reference_image_path = Some img
           \<and> snd (update_frame_df v verify s (Some frame)) =
               DF_Decided (case verify img (jpeg_codec v frame) of
                             Inr True \<Rightarrow> DF_Same | Inr False \<Rightarrow> DF_Different | Inl _ \<Rightarrow> DF_Error)"
proof -
  from df_reachable_inv [OF assms(1)] assms(2)
  obtain img where "df_files s reference_image_path = Some img"
    by (auto simp: df_inv_def)
  with assms(2) show ?thesis
    by (simp add: update_frame_df_read verify_files_after_write Let_def)
qed

theorem df_verdict_is_verify_on_stored_reference_witness:
  "snd (update_frame_df (test_vision (\<lambda>_. []) (\<lambda>_. 0)) (\<lambda>a b. Inr (a = b))
      (df_step (test_vision (\<lambda>_. []) (\<lambda>_. 0)) (\<lambda>a b. Inr (a = b))
         (df_app_init (\<lambda>p. if p = ''a.jpg'' then Some (7::nat) else None)) (Upload_Click ''a.jpg''))
      (Some 8)) = DF_Skipped
   \<and> snd (update_frame_df (test_vision (\<lambda>_. []) (\<lambda>_. 0)) (\<lambda>a b. Inr (a = b))
      (df_step (test_vision (\<lambda>_. []) (\<lambda>_. 0)) (\<lambda>a b. Inr (a = b))
        (df_step (test_vision (\<lambda>_. []) (\<lambda>_. 0)) (\<lambda>a b. Inr (a = b))
          (df_app_init (\<lambda>p. if p = ''a.jpg'' then Some (7::nat) else None)) (Upload_Click ''a.jpg''))
        (Start_Click (Some 7)))
      (Some 8)) = DF_Decided DF_Different"
proof -
  let ?v = "test_vision (\<lambda>_. []) (\<lambda>_. 0) :: nat vision"
  let ?vf = "\<lambda>a b. Inr (a = b) :: exn + bool"
  let ?fs = "\<lambda>p. if p = ''a.jpg'' then Some (7::nat) else None"
  let ?s1 = "df_step ?v ?vf (df_app_init ?fs) (Upload_Click ''a.jpg'')"
  let ?s = "df_step ?v ?vf ?s1 (Start_Click (Some 7))"
  have r: "df_reachable ?v ?vf ?fs ?s"
    by (intro df_reachable.df_step df_reachable.df_init)
  have run: "df_running ?s" by (simp add: df_run_simps)
  have "df_files ?s reference_image_path = Some 7" by (simp add: df_run_simps)
  with df_verdict_is_verify_on_stored_reference [OF r run, of 8]
  have "snd (update_frame_df ?v ?vf ?s (Some 8)) = DF_Decided DF_Different"
    by (simp add: test_vision_def)
  moreover have "snd (update_frame_df ?v ?vf ?s1 (Some 8)) = DF_Skipped"
    by (simp add: df_run_simps)
  ultimately show ?thesis by simp
qed

text \<open>C35: a capture whose camera read fails at once still reports
  \<open>Reference photo captured\<close> and sets \<open>reference_set\<close> when an older \<open>reference.jpg\<close>
  is on disk: the check is \<open>os.path.exists\<close>, not that this capture wrote the file.\<close>

theorem df_capture_failure_keeps_stale_reference:
  assumes "capture_loop reads = Some None" and "df_files s reference_image_path \<noteq> None"
  shows "capture_reference_photo_df v s reads =
           (s\<lparr>reference_set := True, df_result_label := (''Reference photo captured'', ''green'')\<rparr>,
            Returned)"
  using assms by (simp add: capture_reference_photo_df_def)

theorem df_capture_failure_keeps_stale_reference_witness:
  "capture_reference_photo_df (test_vision (\<lambda>_. []) (\<lambda>_. 0))
      (df_app_init (\<lambda>p. if p = ''reference.jpg'' then Some (3::nat) else None)) [(None, -1)] =
   ((df_app_init (\<lambda>p. if p = ''reference.jpg'' then Some (3::nat) else None))
      \<lparr>reference_set := True, df_result_label := (''Reference photo captured'', ''green'')\<rparr>,
    Returned)"
  by (rule df_capture_failure_keeps_stale_reference)
     (simp_all add: df_app_init_def reference_image_path_def)

text \<open>C31: Liveness of the DeepFace loop. From a running state with a pending callback,
  every timer event that reads a frame decides a verdict and the loop stays running with a
  callback pending, whatever \<open>DeepFace.verify\<close> does: no assumption on the files or on
  the model is needed, since every exception is caught.\<close>

theorem df_frame_loop_live:
  assumes "df_running s" and "0 < df_after_queue s"
    and "df_timer_run v verify s (map Some frames) = (u, cs)"
  shows "(\<exists>vds. cs = map DF_Decided vds) \<and> length cs = length frames
         \<and> df_running u \<and> 0 < df_after_queue u"
  using df_timer_run_live [OF assms] assms(2) by simp

theorem df_frame_loop_live_witness:
  "df_timer_run (test_vision (\<lambda>_. []) (\<lambda>_. 0)) (\<lambda>_ _. Inl ValueError)
      ((df_app_init (\<lambda>_. None))\<lparr>df_running := True, df_after_queue := 1\<rparr>) [Some (1::nat), Some 2]
   = (fst (df_timer_run (test_vision (\<lambda>_. []) (\<lambda>_. 0)) (\<lambda>_ _. Inl ValueError)
      ((df_app_init (\<lambda>_. None))\<lparr>df_running := True, df_after_queue := 1\<rparr>) [Some (1::nat), Some 2]),
      [DF_Decided DF_Error, DF_Decided DF_Error])
   \<and> df_running (fst (df_timer_run (test_vision (\<lambda>_. []) (\<lambda>_. 0)) (\<lambda>_ _. Inl ValueError)
      ((df_app_init (\<lambda>_. None))\<lparr>df_running := True, df_after_queue := 1\<rparr>) [Some (1::nat), Some 2]))"
proof -
  let ?v = "test_vision (\<lambda>_. []) (\<lambda>_. 0)"
  let ?vf = "\<lambda>_ _. Inl ValueError :: exn + bool"
  let ?s = "(df_app_init (\<lambda>_. None) :: nat df_app)\<lparr>df_running := True, df_after_queue := 1\<rparr>"
  let ?run = "df_timer_run ?v ?vf ?s [Some 1, Some 2]"
  have h: "df_timer_run ?v ?vf ?s (map Some [1, 2]) = (fst ?run, snd ?run)" by simp
  have run: "df_running ?s" and q: "0 < df_after_queue ?s" by (simp_all add: df_app_init_def)
  from df_frame_loop_live [OF run q h] have r: "df_running (fst ?run)" by blast
  have "snd ?run = [DF_Decided DF_Error, DF_Decided DF_Error]"
    by (simp add: df_timer_fire_def update_frame_df_def verify_files_def df_imwrite_def
        df_app_init_def)
  then have "?run = (fst ?run, [DF_Decided DF_Error, DF_Decided DF_Error])" by (metis prod.collapse)
  then show ?thesis using r by (rule conjI)
qed

end
