(* ===== verification/Spec2Isabelle.thy ===== *)
theory Spec2Isabelle
  imports Session Variant_Basic Variant_DeepFace
begin

text \<open>
  \<^bold>\<open>Live face verification with a person-count gate: a verification library.\<close>

  The repository holds three variants of one Tkinter application. The development models
  \<^verbatim>\<open>src/FinalProject.py\<close>, the variant with the YOLOv8 person detector that the
  spec describes: a reference face is enrolled by camera capture or file upload, and a
  frame loop driven by Tk timers classifies every camera frame as \<open>Same Person\<close>,
  \<open>Different Person\<close>, \<open>No face detected\<close>, \<open>More than one person detected!\<close> or
  \<open>No person detected\<close>. The parts and how they interact:
  \<^item> the matching policy (theory \<open>Face_Metric\<close>): \<open>euclid\<close>, \<open>face_distance\<close>,
    \<open>compare_faces\<close> model the library calls from their contract; \<open>ref_distance\<close>,
    \<open>ref_match\<close>, \<open>same_person_at\<close> and \<open>same_person\<close> the expression of lines 132--135
    with its \<open>TypeError\<close> (no reference) and \<open>ValueError\<close> (length mismatch) paths;
  \<^item> the collaborators (theory \<open>Vision\<close>): OpenCV, dlib and YOLO are the fields of the
    record \<open>vision\<close>, parameters of every definition, so every theorem holds whatever
    they compute; \<open>preprocess_image\<close> and \<open>encode_face\<close> (lines 31--41) compose them;
    \<open>test_vision\<close> is a small instance for concrete runs;
  \<^item> the application state (theory \<open>App_State\<close>): record \<open>app\<close> holds the globals of
    lines 9--16 and the label of line 28, plus what the code changes outside Python
    variables: the files on disk, the Tk timer queue and the open camera handles;
  \<^item> the reference store (theory \<open>Enrollment\<close>): \<open>capture_reference_photo\<close>
    (lines 43--68, with its dialog loop \<open>capture_loop\<close> and key test \<open>key_is_c\<close>) and
    \<open>upload_reference_photo\<close> (lines 70--83), both returning the new state and how the
    callback ended (\<open>outcome\<close>: returned, error dialog, still blocked, or raised);
  \<^item> the decision engine (theory \<open>Recognition\<close>): \<open>update_frame\<close> (lines 95--171) is one
    decision cycle: cadence (\<open>refresh_person_count\<close>: YOLO when
    \<open>frame_counter mod 5 = 0\<close>), gate and face work (\<open>face_stage\<close>), label, counter,
    reschedule; its result \<open>cycle\<close> says what happened; \<open>recognize_live\<close> and
    \<open>stop_camera\<close> (lines 85--93, 173--178) start and stop a session;
  \<^item> the application (theory \<open>Session\<close>): the buttons and the timer as events of a
    deterministic step function \<open>app_step\<close> (Tk runs one callback at a time), runs
    \<open>app_run\<close>, runs of timer callbacks \<open>timer_run\<close>, and the inductive set
    \<open>reachable\<close> of states reachable from \<open>app_init\<close>;
  \<^item> type soundness of the frame loop (theory \<open>Typing\<close>): \<open>vision_typed k\<close> is the
    contract of the face model that Python never checks (every encoding has length
    \<open>k\<close>, no more encodings than locations), \<open>app_typed k\<close> the typing of the state
    (a stored reference has length \<open>k\<close>); preservation by every event, progress of a
    cycle, and liveness of the chain of timer callbacks;
  \<^item> the variant \<^verbatim>\<open>src/FaceMatching.py\<close> (theory \<open>Variant_Basic\<close>): the same state
    record and handlers, but its \<open>update_frame_basic\<close> (lines 92--144) has no person
    detector: \<open>judge_faces\<close> judges every face and the label is the \<open>last_verdict\<close>;
    its buttons and timer are the step function \<open>basic_step\<close> (lines 153--169) with the
    reachable states \<open>basic_reachable\<close>;
  \<^item> the variant \<^verbatim>\<open>src/FaceMatching-UsingDeepface.py\<close> (theory \<open>Variant_DeepFace\<close>):
    its own record \<open>df_app\<close> with the flag \<open>reference_set\<close>, its four handlers,
    \<open>update_frame_df\<close> (lines 80--126) writing the frame to \<open>live_frame.jpg\<close> and calling
    \<open>DeepFace.verify\<close> (a parameter \<open>verify\<close>) on the two files through
    \<open>verify_files\<close>, every exception caught; the step function \<open>df_step\<close> over the
    same events, the timer callback \<open>df_timer_fire\<close> and its runs \<open>df_timer_run\<close>,
    and the inductive set \<open>df_reachable\<close>;
  \<^item> this theory: the engine state machine of spec section 4.3 as an abstract
    specification (\<open>spec_step\<close>) and the lemmas that the code's start, stop and enroll
    handlers refine it, and where they do not.

  What the lemmas show, by group:
  \<^item> gating and verdicts (\<open>Recognition\<close>): an identity verdict only with exactly one
    person; the verdict of every branch (none, several, one person with or without a face,
    distance below 0.6 or not); a \<open>None\<close> reference crashes the cycle and ends the loop;
  \<^item> cadence (\<open>Recognition\<close>): a decided cycle takes its person count from YOLO's result
    on its own frame exactly when the counter is a multiple of 5 and keeps the cached count
    otherwise, and advances the counter by one; the flag of \<open>Decided\<close> is the model's
    record of whether the refresh was due, not an observation that YOLO ran;
  \<^item> matching (\<open>Face_Metric\<close>): \<open>match and distance < 0.6\<close> is the strict test
    \<open>distance < 0.6\<close>; reflexivity, symmetry, monotonicity in tolerance and threshold
    are kept as lemmas;
  \<^item> enrollment (\<open>Enrollment\<close>): the capture loop ends exactly on a failed read or the
    key \<open>c\<close>; capture round trip through \<open>reference.jpg\<close>; enrollment never touches
    the session; a failed upload clears the reference; a failed capture read reuses a
    stale \<open>reference.jpg\<close>;
  \<^item> the application (\<open>Session\<close>): in every reachable state a running session owns an
    open camera (the invariant \<open>app_inv\<close>, by rule induction over \<open>reachable\<close>); after
    stop the queued callbacks drain without deciding; a failed read stalls a running
    session; the first camera of a second Start is never released; upload followed by
    Start decides the first frame by the distance between the two encodings (spec
    scenario B for any images);
  \<^item> refinement (here): start, stop and successful enrollment outside a session refine
    \<open>spec_step\<close> under the view that merges \<open>Reference_Ready\<close> and \<open>Stopped\<close>; stop
    needs the reference to be set while running, and enrollment while running is not
    rejected as the spec requires;
  \<^item> typing and liveness (\<open>Typing\<close>): in every reachable state a stored reference has
    the model's encoding length; a running cycle of a typed state with a reference never
    raises, so from a reachable running state with a pending callback every timer event
    that reads a frame decides and the loop stays scheduled; without the reference (a
    failed upload during a session) the cycle raises, as \<open>Recognition\<close> shows; a
    second Start while running opens a second camera and starts a second loop, whose
    callback is queued beside the running loop's;
  \<^item> \<open>Variant_Basic\<close>: every face is judged and the label is the verdict of the last
    face, so beside a stranger the enrolled face shown last gives \<open>Same Person\<close>; with one person and one face the label agrees
    with the gated program; a frame with no face blanks the label; with a cleared reference
    the loop survives frames without faces and raises at the first face; in its reachable
    states a typed running cycle with a reference always decides;
  \<^item> \<open>Variant_DeepFace\<close>: every cycle that reads a frame decides and reschedules
    whatever \<open>verify\<close> does, so every run of timer events over read frames decides on
    each of them and leaves the loop scheduled (liveness with no assumption at all); a missing \<open>reference.jpg\<close> gives
    \<open>Error in recognition\<close>; in every reachable state the flag is backed by the file and
    running implies the flag (\<open>df_inv\<close>, by rule induction), so a verdict is
    \<open>verify\<close> on the stored reference and the written frame; a failed capture read with
    an old file on disk sets the flag.

  Bounds and inputs. No loop of the model needs fuel: the dialog loop of
  \<open>capture_loop\<close> runs over the finite list of reads it is given and answers \<open>None\<close>
  (still waiting) when they run out, which is exact for every finite observation of the
  unbounded \<open>while True\<close>; the frame loop is not a loop of the code but a chain of
  timer callbacks, one event each, so every run is a finite list of events; liveness is
  stated for runs of every length, which is what an unbounded chain of callbacks needs,
  each prefix deciding on each of its frames and leaving a callback pending. Python's
  integers are \<open>int\<close>/\<open>nat\<close> (the counter never wraps); key codes are \<open>int\<close> with
  the mask of \<open>& 0xFF\<close> written out; distances are \<open>real\<close>.

  Not modelled: pixels and the image algorithms (the collaborator functions are
  parameters), drawing on frames, widget layout and \<open>PhotoImage\<close> conversion, and the
  camera device (its reads are inputs). \<^verbatim>\<open>src/FaceMatching.py\<close> shares the
  capture, upload and stop definitions of \<open>Enrollment\<close> and \<open>Recognition\<close>: its lines
  40--90 and 146--151 are identical to lines 43--93 and 173--178 of
  \<^verbatim>\<open>src/FinalProject.py\<close>. In the DeepFace
  variant a path holds an image or nothing (\<open>os.path.exists\<close> of an unreadable file and
  the \<open>except\<close> branch of upload, an \<open>imwrite\<close> failure, are not modelled).
  \<open>face_distance\<close> and \<open>compare_faces\<close> raise \<open>ValueError\<close> in the model for every
  pair of encodings of different lengths; numpy broadcasts an operand of length 1 without
  error, a case that dlib's 128-dimensional encodings never produce.
\<close>

section \<open>The engine state machine of the specification\<close>

datatype engine_state = Idle | Reference_Ready | Running | Stopped

datatype engine_error = Reference_Not_Set | Engine_Busy

datatype request = Enroll_Success | Enroll_Failure | Start | Stop

text \<open>
  Spec section 4.3: enrollment success leads to \<open>Reference_Ready\<close> from every state but
  \<open>Running\<close>, where enrollment is rejected with \<open>Engine_Busy\<close>; a failed enrollment
  changes nothing; start needs a reference; stop is idempotent. The spec does not say what
  a second start does; section 5 forbids overlapping cycles, read here as a no-op.
\<close>

fun spec_step :: "engine_state \<Rightarrow> request \<Rightarrow> engine_error + engine_state" where
  "spec_step Running Enroll_Success = Inl Engine_Busy"
| "spec_step _ Enroll_Success = Inr Reference_Ready"
| "spec_step Running Enroll_Failure = Inl Engine_Busy"
| "spec_step st Enroll_Failure = Inr st"
| "spec_step Idle Start = Inl Reference_Not_Set"
| "spec_step _ Start = Inr Running"
| "spec_step Running Stop = Inr Stopped"
| "spec_step st Stop = Inr st"

text \<open>
  The code keeps no engine state of its own; what it has is \<open>running\<close> and whether a
  reference is set. The view forgets the difference between a fresh reference and a
  stopped session, which the code does not record either.
\<close>

datatype view = View_Idle | View_Ready | View_Running

fun view_of :: "engine_state \<Rightarrow> view" where
  "view_of Idle = View_Idle"
| "view_of Reference_Ready = View_Ready"
| "view_of Stopped = View_Ready"
| "view_of Running = View_Running"

definition engine_view :: "'f app \<Rightarrow> view" where
  "engine_view s =
     (if running s then View_Running
      else if reference_encoding s = None then View_Idle else View_Ready)"

section \<open>Refinement\<close>

lemma engine_view_cases:
  "engine_view s = View_Running \<longleftrightarrow> running s"
  "engine_view s = View_Idle \<longleftrightarrow> \<not> running s \<and> reference_encoding s = None"
  "engine_view s = View_Ready \<longleftrightarrow> \<not> running s \<and> reference_encoding s \<noteq> None"
  by (auto simp: engine_view_def)

lemma recognize_live_running:
  "reference_encoding s \<noteq> None \<Longrightarrow> running (fst (recognize_live v s r))
     \<and> reference_encoding (fst (recognize_live v s r)) = reference_encoding s"
  by (auto simp: recognize_live_eq update_frame_keeps)

lemma stop_camera_fields:
  "\<not> running (stop_camera s) \<and> reference_encoding (stop_camera s) = reference_encoding s"
  by (simp add: stop_camera_eq split: option.split)

text \<open>C11: Start refines the specification: where the spec starts a session the code is
  running afterwards, and where the spec answers \<open>Reference_Not_Set\<close> the code shows
  its error dialog and changes nothing.\<close>

theorem start_refines_spec:
  assumes "view_of a = engine_view s"
  shows "case spec_step a Start of
           Inl e \<Rightarrow> e = Reference_Not_Set
                  \<and> recognize_live v s r = (s, Shown_Error ''Please set a reference photo first!'')
         | Inr a' \<Rightarrow> view_of a' = engine_view (fst (recognize_live v s r))"
proof (cases a)
  case Idle
  with assms have "reference_encoding s = None" by (auto simp: engine_view_def split: if_splits)
  with Idle show ?thesis by (simp add: recognize_live_def)
next
  case Running
  with assms have run: "running s" by (auto simp: engine_view_def split: if_splits)
  show ?thesis
  proof (cases "reference_encoding s")
    case None
    with Running run show ?thesis by (simp add: recognize_live_def engine_view_def)
  next
    case (Some k)
    with Running show ?thesis using recognize_live_running [of s v r] by (simp add: engine_view_def)
  qed
qed (use assms recognize_live_running [of s v r] in \<open>auto simp: engine_view_def split: if_splits\<close>)

theorem start_refines_spec_witness:
  "view_of Idle = engine_view (app_init Map.empty :: nat app)
   \<and> recognize_live (test_vision (\<lambda>_. []) (\<lambda>_. 0)) (app_init Map.empty) None
       = (app_init Map.empty, Shown_Error ''Please set a reference photo first!'')"
proof -
  have h: "view_of Idle = engine_view (app_init Map.empty :: nat app)"
    by (simp add: engine_view_def app_init_def)
  show ?thesis
    using h start_refines_spec [OF h, of "test_vision (\<lambda>_. []) (\<lambda>_. 0)" None] by simp
qed

text \<open>C12: Stop refines the specification when a running session has a reference:
  a running engine ends \<open>Stopped\<close>, any other is unchanged.\<close>

theorem stop_refines_spec:
  assumes "view_of a = engine_view s" and "running s \<longrightarrow> reference_encoding s \<noteq> None"
  shows "case spec_step a Stop of
           Inl e \<Rightarrow> False
         | Inr a' \<Rightarrow> view_of a' = engine_view (stop_camera s)"
  using assms stop_camera_fields [of s]
  by (cases a) (auto simp: engine_view_def split: if_splits)

theorem stop_refines_spec_witness:
  "view_of Running = engine_view ((app_init Map.empty)\<lparr>running := True, reference_encoding := Some [1]\<rparr> :: nat app)
   \<and> reference_encoding ((app_init Map.empty)\<lparr>running := True, reference_encoding := Some [1]\<rparr> :: nat app) \<noteq> None
   \<and> view_of Stopped = engine_view (stop_camera ((app_init Map.empty)\<lparr>running := True, reference_encoding := Some [1]\<rparr> :: nat app))"
proof -
  let ?s = "(app_init Map.empty)\<lparr>running := True, reference_encoding := Some [1]\<rparr> :: nat app"
  have h1: "view_of Running = engine_view ?s" by (simp add: engine_view_def)
  have h2: "running ?s \<longrightarrow> reference_encoding ?s \<noteq> None" by simp
  have "reference_encoding ?s \<noteq> None" by simp
  then show ?thesis using h1 stop_refines_spec [OF h1 h2] by simp
qed

text \<open>C13: Enrollment outside a session refines the specification when a face is found:
  the engine is ready afterwards.\<close>

theorem enroll_refines_spec:
  assumes "view_of a = engine_view s" and "\<not> running s"
    and "p \<noteq> []" and "files s p = Some raw" and "encode_face v (cvt_bgr2rgb v raw) \<noteq> None"
  shows "case spec_step a Enroll_Success of
           Inl e \<Rightarrow> False
         | Inr a' \<Rightarrow> view_of a' = engine_view (fst (upload_reference_photo v s p))"
proof -
  have "a \<noteq> Running" using assms(1,2) by (auto simp: engine_view_def split: if_splits)
  moreover have "engine_view (fst (upload_reference_photo v s p)) = View_Ready"
    using assms(2-5) upload_session_fields [of v s p]
    by (auto simp: engine_view_def upload_Some_eq Let_def)
  ultimately show ?thesis by (cases a) auto
qed

theorem enroll_refines_spec_witness:
  "view_of Idle = engine_view (app_init [''p.jpg'' \<mapsto> (3::nat)])
   \<and> \<not> running (app_init [''p.jpg'' \<mapsto> (3::nat)])
   \<and> files (app_init [''p.jpg'' \<mapsto> (3::nat)]) ''p.jpg'' = Some 3
   \<and> encode_face (test_vision (\<lambda>_. [[1]]) (\<lambda>_. 1)) (cvt_bgr2rgb (test_vision (\<lambda>_. [[1]]) (\<lambda>_. 1)) 3) \<noteq> None
   \<and> view_of Reference_Ready
       = engine_view (fst (upload_reference_photo (test_vision (\<lambda>_. [[1]]) (\<lambda>_. 1))
                             (app_init [''p.jpg'' \<mapsto> 3]) ''p.jpg''))"
proof -
  let ?v = "test_vision (\<lambda>_. [[1]]) (\<lambda>_. 1)"
  let ?s = "app_init [''p.jpg'' \<mapsto> (3::nat)]"
  have h1: "view_of Idle = engine_view ?s" by (simp add: engine_view_def app_init_def)
  have h2: "\<not> running ?s" by (simp add: app_init_def)
  have h3: "''p.jpg'' \<noteq> []" by simp
  have h4: "files ?s ''p.jpg'' = Some 3" by (simp add: app_init_def)
  have h5: "encode_face ?v (cvt_bgr2rgb ?v 3) \<noteq> None"
    by (simp add: test_vision_def encode_face_def preprocess_image_def)
  show ?thesis using h1 h2 h4 h5 enroll_refines_spec [OF h1 h2 h3 h4 h5] by simp
qed

text \<open>C19: Where the code does not refine the specification: an enrollment while a
  session runs is not rejected with \<open>Engine_Busy\<close>; the code swaps the reference under
  the running loop.\<close>

theorem enroll_while_running_accepted:
  assumes "running s" and "p \<noteq> []" and "files s p = Some raw"
  shows "spec_step Running Enroll_Success = Inl Engine_Busy
       \<and> snd (upload_reference_photo v s p) = Returned
       \<and> running (fst (upload_reference_photo v s p))
       \<and> reference_encoding (fst (upload_reference_photo v s p)) = encode_face v (cvt_bgr2rgb v raw)"
  using assms upload_session_fields [of v s p] by (simp add: upload_Some_eq Let_def)

theorem enroll_while_running_accepted_witness:
  "running ((app_init [''p.jpg'' \<mapsto> (3::nat)])\<lparr>running := True\<rparr>)
   \<and> files ((app_init [''p.jpg'' \<mapsto> (3::nat)])\<lparr>running := True\<rparr>) ''p.jpg'' = Some 3
   \<and> running (fst (upload_reference_photo (test_vision (\<lambda>_. [[1]]) (\<lambda>_. 1))
                 ((app_init [''p.jpg'' \<mapsto> 3])\<lparr>running := True\<rparr>) ''p.jpg''))"
proof -
  let ?s = "(app_init [''p.jpg'' \<mapsto> (3::nat)])\<lparr>running := True\<rparr>"
  have h1: "running ?s" by simp
  have h2: "''p.jpg'' \<noteq> []" by simp
  have h3: "files ?s ''p.jpg'' = Some 3" by (simp add: app_init_def)
  show ?thesis
    using h1 h3 enroll_while_running_accepted [OF h1 h2 h3, of "test_vision (\<lambda>_. [[1]]) (\<lambda>_. 1)"]
    by simp
qed

end
